theory Spec2Isabelle
  imports Complex_Main
begin

section \<open>Data model of the learning engine (class AILearningApp)\<close>

text \<open>
  The engine keeps all of its entities as attributes of one controller object; the
  model passes that object around as a record.  Conventions of the embedding:
  \<^item> Python's unbounded \<open>int\<close> is \<^typ>\<open>int\<close>.
  \<^item> Python floats are exact rationals (\<^typ>\<open>rat\<close>).  Mastery and strength values only
    move in steps of 1, 0.5, 0.7 and 0.4 inside [0, 5]; the thresholds 0.8 and 0.6 and the
    gains 0.7 and 0.4 are read as the decimal fractions the source text writes.
  \<^item> A calendar date is its day number (an \<^typ>\<open>int\<close>).  The source stores dates as
    ISO strings \<open>YYYY-MM-DD\<close>; equality and order of such strings are equality and order
    of the days, and \<open>date + timedelta(days=n)\<close> is adding \<open>n\<close>.
  \<^item> The clock (\<open>datetime.now()\<close>) and the answer to a yes/no dialog are parameters.
  \<^item> Writing the JSON files and showing message boxes change nothing in the object and
    are left out; the one state change inside \<open>save_data\<close> (the longest streak) is kept.
  \<^item> Dictionary keys for topics are ints in some places and their decimal strings in
    others, so keys are a datatype of both.
\<close>

datatype pykey = KInt int | KStr string

datatype py_error = IndexError

record mem =
  strength :: rat
  last_seen :: "string option"
  confidence :: string
  times_correct :: int
  times_wrong :: int
  topic :: int

record acc_data =
  correct :: int
  total :: int

record question =
  question_text :: string
  question_topic :: int

record quest =
  quest_id :: string
  title :: string
  description :: string
  qtype :: string
  target_topic :: "int option"
  target :: int
  progress :: int
  xp_reward :: int
  generated_date :: int
  is_weekly :: "bool option"

text \<open>
  Quests are Python dicts that are mutated in place while they are shared between the
  list being iterated, \<open>active_quests\<close> and \<open>completed_quests\<close>.  The model keeps them in a
  store (\<open>quest_store\<close>, reference to value); the two lists hold references.
\<close>

record app =
  xp :: int
  level :: int
  streak :: int
  last_study_date :: "int option"
  achievements :: "string list"
  review_schedule :: "pykey \<rightharpoonup> int"
  mastery_levels :: "pykey \<rightharpoonup> rat"
  question_memory :: "string \<rightharpoonup> mem"
  review_queue :: "string list"
  topic_accuracy :: "pykey \<rightharpoonup> acc_data"
  longest_streak :: "int option"
  quest_store :: "nat \<Rightarrow> quest"
  active_quests :: "nat list"
  completed_quests :: "nat list"
  streak_freezes :: int
  streak_freeze_used_today :: bool
  hard_mode :: bool
  exam_simulator :: bool
  bonus_visualizations :: bool
  case_studies :: bool

text \<open>The state \<open>__init__\<close> builds before anything is loaded.\<close>

definition init_app :: app where
  "init_app = \<lparr> xp = 0, level = 1, streak = 0, last_study_date = None, achievements = [],
     review_schedule = Map.empty, mastery_levels = Map.empty, question_memory = Map.empty,
     review_queue = [], topic_accuracy = Map.empty, longest_streak = Some 0,
     quest_store = (\<lambda>_. \<lparr> quest_id = [], title = [], description = [], qtype = [],
        target_topic = None, target = 0, progress = 0, xp_reward = 0, generated_date = 0,
        is_weekly = None \<rparr>),
     active_quests = [], completed_quests = [], streak_freezes = 2,
     streak_freeze_used_today = False, hard_mode = False, exam_simulator = False,
     bonus_visualizations = False, case_studies = False \<rparr>"

text \<open>The keys of \<open>self.topics\<close>, in insertion order.\<close>

definition topics_keys :: "int list" where
  "topics_keys = [1, 2, 3, 4, 5, 6, 7, 8, 9, 10]"

subsection \<open>\<open>str\<close> of an integer\<close>

definition digit_char :: "nat \<Rightarrow> char" where
  "digit_char d = ''0123456789'' ! d"

fun nat_str :: "nat \<Rightarrow> string" where
  "nat_str n = (if n < 10 then [digit_char n] else nat_str (n div 10) @ [digit_char (n mod 10)])"

declare nat_str.simps [simp del]

definition py_str :: "int \<Rightarrow> string" where
  "py_str i = (if i < 0 then CHR ''-'' # nat_str (nat (- i)) else nat_str (nat i))"

subsection \<open>\<open>save_data\<close>\<close>

text \<open>
  \<open>save_data\<close> raises the stored longest streak to the current streak
  (\<open>personal_bests.get('longest_streak', 0)\<close>: a missing entry reads as 0) and then
  writes the files.
\<close>

definition get_longest_streak :: "app \<Rightarrow> int" where
  "get_longest_streak s = (case longest_streak s of None \<Rightarrow> 0 | Some v \<Rightarrow> v)"

definition save_data :: "app \<Rightarrow> app" where
  "save_data s =
     (if streak s > get_longest_streak s then s\<lparr>longest_streak := Some (streak s)\<rparr> else s)"

section \<open>Topic mastery and the review schedule\<close>

text \<open>\<open>int(x)\<close> of a float truncates towards zero.\<close>

definition py_int :: "rat \<Rightarrow> int" where
  "py_int x = (if 0 \<le> x then \<lfloor>x\<rfloor> else \<lceil>x\<rceil>)"

text \<open>
  Indexing a list: negative indices count from the end, anything outside raises
  \<open>IndexError\<close>.
\<close>

definition py_index :: "'a list \<Rightarrow> int \<Rightarrow> py_error + 'a" where
  "py_index xs i =
     (if 0 \<le> i \<and> i < int (length xs) then Inr (xs ! nat i)
      else if i < 0 \<and> - int (length xs) \<le> i then Inr (xs ! nat (int (length xs) + i))
      else Inl IndexError)"

definition review_intervals :: "int list" where
  "review_intervals = [1, 3, 7, 14, 30, 60]"

text \<open>\<open>self.mastery_levels[topic_num]\<close> on a \<open>defaultdict(int)\<close>: a missing key reads 0.\<close>

definition get_mastery :: "app \<Rightarrow> pykey \<Rightarrow> rat" where
  "get_mastery s k = (case mastery_levels s k of None \<Rightarrow> 0 | Some m \<Rightarrow> m)"

definition check_spaced_repetition :: "int \<Rightarrow> app \<Rightarrow> pykey \<Rightarrow> bool" where
  "check_spaced_repetition today s topic_num =
     (case review_schedule s topic_num of
        None \<Rightarrow> True
      | Some next_review_date \<Rightarrow> today \<ge> next_review_date)"

definition new_mastery :: "rat \<Rightarrow> rat \<Rightarrow> rat" where
  "new_mastery mastery performance_score =
     (if performance_score \<ge> 8 / 10 then min 5 (mastery + 1)
      else if performance_score \<ge> 6 / 10 then max 0 (mastery - 1 / 2)
      else max 0 (mastery - 1))"

definition update_spaced_repetition :: "int \<Rightarrow> app \<Rightarrow> pykey \<Rightarrow> rat \<Rightarrow> py_error + app" where
  "update_spaced_repetition today s topic_num performance_score =
     (let mastery = new_mastery (get_mastery s topic_num) performance_score;
          s1 = s\<lparr>mastery_levels := (mastery_levels s)(topic_num \<mapsto> mastery)\<rparr>
      in case py_index review_intervals (min (py_int mastery) 5) of
           Inl e \<Rightarrow> Inl e
         | Inr days_until_review \<Rightarrow>
             Inr (save_data
               (s1\<lparr>review_schedule := (review_schedule s1)(topic_num \<mapsto> today + days_until_review)\<rparr>)))"

text \<open>
  A run of quiz completions for one topic: the list gives, for each call, the day it
  happens on and the score.  An exception ends the run.
\<close>

fun run_updates :: "app \<Rightarrow> pykey \<Rightarrow> (int \<times> rat) list \<Rightarrow> py_error + app" where
  "run_updates s topic_num [] = Inr s"
| "run_updates s topic_num ((today, score) # rest) =
     (case update_spaced_repetition today s topic_num score of
        Inl e \<Rightarrow> Inl e
      | Inr s' \<Rightarrow> run_updates s' topic_num rest)"

section \<open>Progression ledger: xp, levels, achievements, streak\<close>

text \<open>
  The measure for the mutual recursion of \<open>add_xp\<close> and \<open>unlock_achievement\<close>
  below, which ends after at most two bonus rounds: once the level has been
  recomputed from the xp, a bonus of 50 crosses a multiple of 100 at most once in a row.
\<close>

definition cascade_rank :: "app \<Rightarrow> int \<Rightarrow> nat" where
  "cascade_rank s amount =
     (if 1 + (xp s + amount) div 100 > level s
      then (if level s = 1 + xp s div 100 \<and> amount = 50 then 1 else 2)
      else 0)"

text \<open>
  \<open>add_xp\<close> and \<open>unlock_achievement\<close> call each other: a level-up unlocks the
  achievement \<open>Level n Reached!\<close>, and a newly unlocked achievement adds 50 xp.
\<close>

function add_xp :: "app \<Rightarrow> int \<Rightarrow> app"
  and unlock_achievement :: "app \<Rightarrow> string \<Rightarrow> app" where
  "add_xp s amount =
     (let s1 = s\<lparr>xp := xp s + amount\<rparr>;
          old_level = level s1;
          s2 = s1\<lparr>level := 1 + xp s1 div 100\<rparr>;
          s3 = (if level s2 > old_level
                then unlock_achievement s2 (''Level '' @ py_str (level s2) @ '' Reached!'')
                else s2)
      in save_data s3)"
| "unlock_achievement s achievement_name =
     (if achievement_name \<notin> set (achievements s)
      then save_data (add_xp (s\<lparr>achievements := achievements s @ [achievement_name]\<rparr>) 50)
      else s)"
  by pat_completeness auto

termination
proof (relation "measure (\<lambda>c. case c of
          Inl (s, amount) \<Rightarrow> 2 * cascade_rank s amount
        | Inr (s, name) \<Rightarrow> 2 * cascade_rank s 50 + 1)", goal_cases)
  case 1
  show ?case by simp
next
  case (2 s amount s1 old_level s2)
  then show ?case by (auto simp: cascade_rank_def)
next
  case (3 s achievement_name)
  show ?case by (simp add: cascade_rank_def)
qed

declare add_xp.simps [simp del] unlock_achievement.simps [simp del]

definition update_streak :: "int \<Rightarrow> app \<Rightarrow> app" where
  "update_streak today s =
     (if last_study_date s \<noteq> Some today then
        (let s1 = (case last_study_date s of
                     Some d \<Rightarrow>
                       (let yesterday = today - 1
                        in if d = yesterday then s\<lparr>streak := streak s + 1\<rparr>
                           else s\<lparr>streak := 1\<rparr>)
                   | None \<Rightarrow> s\<lparr>streak := 1\<rparr>);
             s2 = s1\<lparr>last_study_date := Some today\<rparr>;
             s3 = (if streak s2 mod 7 = 0
                   then unlock_achievement s2 (py_str (streak s2) @ '' Day Streak!'')
                   else s2)
         in save_data s3)
      else s)"

subsection \<open>Streak guardrails\<close>

definition use_streak_freeze :: "app \<Rightarrow> app \<times> bool" where
  "use_streak_freeze s =
     (if streak_freezes s > 0
      then (save_data (s\<lparr>streak_freezes := streak_freezes s - 1,
                          streak_freeze_used_today := True\<rparr>), True)
      else (s, False))"

text \<open>
  \<open>response\<close> is the learner's answer to the "Protect Your Streak?" dialog; it is only
  read when the dialog is shown.
\<close>

definition check_streak_with_guardrails :: "int \<Rightarrow> bool \<Rightarrow> app \<Rightarrow> app \<times> bool" where
  "check_streak_with_guardrails today response s =
     (let yesterday = today - 1
      in if last_study_date s = Some today then (s, True)
         else if last_study_date s = Some yesterday then (s, True)
         else if streak s > 0 \<and> streak_freezes s > 0 \<and> \<not> streak_freeze_used_today s
                 \<and> response
         then (fst (use_streak_freeze s), True)
         else if streak s > 0
                 \<and> (case last_study_date s of None \<Rightarrow> False | Some d \<Rightarrow> d < yesterday)
         then (s\<lparr>streak := 0\<rparr>, False)
         else (s, False))"

section \<open>Per-item memory and the review queue\<close>

text \<open>
  The item id is the first 12 hex digits of the MD5 of the question text followed by the
  topic; the hash function (\<open>hashlib.md5(...).hexdigest()\<close>) is a parameter.
\<close>

definition get_question_id :: "(string \<Rightarrow> string) \<Rightarrow> question \<Rightarrow> string" where
  "get_question_id md5_hexdigest q =
     take 12 (md5_hexdigest (question_text q @ py_str (question_topic q)))"

text \<open>
  \<open>conf_arg\<close> is the optional third argument: \<open>None\<close> when the caller leaves it out, so
  that the default \<open>'medium'\<close> of the signature applies.  \<open>now\<close> is the time stamp.
\<close>

definition update_question_memory ::
  "(string \<Rightarrow> string) \<Rightarrow> string \<Rightarrow> app \<Rightarrow> question \<Rightarrow> bool \<Rightarrow> string option \<Rightarrow> app" where
  "update_question_memory md5_hexdigest now s q is_correct conf_arg =
     (let conf = (case conf_arg of None \<Rightarrow> ''medium'' | Some c \<Rightarrow> c);
          q_id = get_question_id md5_hexdigest q;
          mem0 = (case question_memory s q_id of
                    None \<Rightarrow> \<lparr> strength = 0, last_seen = None, confidence = conf,
                               times_correct = 0, times_wrong = 0, topic = question_topic q \<rparr>
                  | Some m \<Rightarrow> m);
          mem1 = mem0\<lparr>last_seen := Some now, confidence := conf\<rparr>
      in if is_correct then
           (let mem2 = mem1\<lparr>times_correct := times_correct mem1 + 1\<rparr>;
                strength_gain = (if conf = ''high'' then 1
                                 else if conf = ''medium'' then 7 / 10 else 4 / 10);
                mem3 = mem2\<lparr>strength := min 5 (strength mem2 + strength_gain)\<rparr>
            in save_data (s\<lparr>question_memory := (question_memory s)(q_id \<mapsto> mem3)\<rparr>))
         else
           (let mem2 = mem1\<lparr>times_wrong := times_wrong mem1 + 1\<rparr>;
                mem3 = mem2\<lparr>strength := max 0 (strength mem2 - 1)\<rparr>;
                s1 = s\<lparr>question_memory := (question_memory s)(q_id \<mapsto> mem3)\<rparr>;
                s2 = (if q_id \<notin> set (review_queue s1)
                      then s1\<lparr>review_queue := review_queue s1 @ [q_id]\<rparr> else s1)
            in save_data s2))"

definition add_to_review :: "app \<Rightarrow> string \<Rightarrow> app" where
  "add_to_review s q_id =
     (if q_id \<notin> set (review_queue s)
      then save_data (s\<lparr>review_queue := review_queue s @ [q_id]\<rparr>)
      else s)"

text \<open>The events that touch the review queue, and a run of them.\<close>

datatype review_event =
    Answer question bool "string option"
  | AddToReview string

fun review_step :: "(string \<Rightarrow> string) \<Rightarrow> string \<Rightarrow> app \<Rightarrow> review_event \<Rightarrow> app" where
  "review_step md5_hexdigest now s (Answer q is_correct conf_arg) =
     update_question_memory md5_hexdigest now s q is_correct conf_arg"
| "review_step md5_hexdigest now s (AddToReview q_id) = add_to_review s q_id"

fun review_run :: "(string \<Rightarrow> string) \<Rightarrow> string \<Rightarrow> app \<Rightarrow> review_event list \<Rightarrow> app" where
  "review_run md5_hexdigest now s [] = s"
| "review_run md5_hexdigest now s (e # es) =
     review_run md5_hexdigest now (review_step md5_hexdigest now s e) es"

section \<open>Weakest topic\<close>

fun get_weakest_topic_loop :: "app \<Rightarrow> int list \<Rightarrow> int option \<times> rat \<Rightarrow> int option \<times> rat" where
  "get_weakest_topic_loop s [] (weakest, lowest_acc) = (weakest, lowest_acc)"
| "get_weakest_topic_loop s (topic_num # rest) (weakest, lowest_acc) =
     (let acc = (case topic_accuracy s (KStr (py_str topic_num)) of
                   None \<Rightarrow> \<lparr> correct = 0, total = 0 \<rparr>
                 | Some a \<Rightarrow> a)
      in if total acc > 0 then
           (let ratio = (of_int (correct acc) / of_int (total acc)) * 100
            in if ratio < lowest_acc
               then get_weakest_topic_loop s rest (Some topic_num, ratio)
               else get_weakest_topic_loop s rest (weakest, lowest_acc))
         else if weakest = None
         then get_weakest_topic_loop s rest (Some topic_num, 0)
         else get_weakest_topic_loop s rest (weakest, lowest_acc))"

definition get_weakest_topic :: "app \<Rightarrow> int option \<times> rat" where
  "get_weakest_topic s = get_weakest_topic_loop s topics_keys (None, 101)"

section \<open>Quest engine\<close>

text \<open>Truth value of an optional int in a condition: \<open>None\<close> and 0 are false.\<close>

definition truthy :: "int option \<Rightarrow> bool" where
  "truthy v = (case v of None \<Rightarrow> False | Some n \<Rightarrow> n \<noteq> 0)"

text \<open>
  \<open>quest in self.completed_quests\<close>: list membership holds for the same object or for a
  dict with equal entries.
\<close>

definition quest_in_completed :: "app \<Rightarrow> nat \<Rightarrow> bool" where
  "quest_in_completed s r =
     list_ex (\<lambda>r'. r' = r \<or> quest_store s r' = quest_store s r) (completed_quests s)"

text \<open>
  The four threshold checks at the end of \<open>complete_quest\<close>, in the order of the source;
  \<open>completed_count\<close> is the length of the completed list, read once before them.
\<close>

definition unlock_features :: "app \<Rightarrow> int \<Rightarrow> app" where
  "unlock_features s3 completed_count =
     (let s4 = (if completed_count \<ge> 5 \<and> \<not> hard_mode s3
                then unlock_achievement (s3\<lparr>hard_mode := True\<rparr>) ''Unlocked: Hard Mode!''
                else s3);
          s5 = (if completed_count \<ge> 15 \<and> \<not> exam_simulator s4
                then unlock_achievement (s4\<lparr>exam_simulator := True\<rparr>)
                       ''Unlocked: Exam Simulator!''
                else s4);
          s6 = (if completed_count \<ge> 25 \<and> \<not> bonus_visualizations s5
                then unlock_achievement (s5\<lparr>bonus_visualizations := True\<rparr>)
                       ''Unlocked: Bonus Visualizations!''
                else s5);
          s7 = (if completed_count \<ge> 40 \<and> \<not> case_studies s6
                then unlock_achievement (s6\<lparr>case_studies := True\<rparr>)
                       ''Unlocked: AI Case Studies!''
                else s6)
      in s7)"

definition complete_quest :: "app \<Rightarrow> nat \<Rightarrow> app" where
  "complete_quest s r =
     (if \<not> quest_in_completed s r then
        (let s1 = s\<lparr>completed_quests := completed_quests s @ [r]\<rparr>;
             s2 = s1\<lparr>active_quests :=
                    filter (\<lambda>q. quest_id (quest_store s1 q) \<noteq> quest_id (quest_store s1 r))
                      (active_quests s1)\<rparr>;
             s3 = add_xp s2 (xp_reward (quest_store s2 r));
             completed_count = int (length (completed_quests s3))
         in unlock_features s3 completed_count)
      else s)"

text \<open>
  One pass of the body of the \<open>for\<close> loop in \<open>update_quest_progress\<close>, for the quest
  object \<open>r\<close>.  The first \<open>then s\<close> is the \<open>continue\<close>.
\<close>

definition quest_step :: "app \<Rightarrow> nat \<Rightarrow> string \<Rightarrow> int \<Rightarrow> int option \<Rightarrow> app" where
  "quest_step s r quest_type amount topic_arg =
     (let quest = quest_store s r
      in if qtype quest = quest_type then
           (if truthy topic_arg \<and> truthy (target_topic quest) \<and> target_topic quest \<noteq> topic_arg
            then s
            else
              (let s1 = s\<lparr>quest_store := (quest_store s)
                           (r := quest\<lparr>progress := min (target quest) (progress quest + amount)\<rparr>)\<rparr>
               in if progress (quest_store s1 r) \<ge> target (quest_store s1 r)
                  then complete_quest s1 r else s1))
         else s)"

text \<open>
  The loop runs over the list object that \<open>active_quests\<close> named when the loop started;
  \<open>complete_quest\<close> rebinds the attribute to a new list and does not shorten the one being
  iterated.
\<close>

fun update_quest_progress_loop ::
  "app \<Rightarrow> nat list \<Rightarrow> string \<Rightarrow> int \<Rightarrow> int option \<Rightarrow> app" where
  "update_quest_progress_loop s [] quest_type amount topic_arg = s"
| "update_quest_progress_loop s (r # rest) quest_type amount topic_arg =
     update_quest_progress_loop (quest_step s r quest_type amount topic_arg) rest
       quest_type amount topic_arg"

definition update_quest_progress :: "app \<Rightarrow> string \<Rightarrow> int \<Rightarrow> int option \<Rightarrow> app" where
  "update_quest_progress s quest_type amount topic_arg =
     save_data (update_quest_progress_loop s (active_quests s) quest_type amount topic_arg)"

text \<open>A sample item for the concrete instances; they use the identity as the hash.\<close>

definition sample_question :: question where
  "sample_question = \<lparr> question_text = ''What is AI?'', question_topic = 1 \<rparr>"

section \<open>Predicates used in the statements\<close>

text \<open>
  What \<open>add_xp\<close> and \<open>unlock_achievement\<close> leave alone: every attribute except the xp,
  the level, the achievement list and the longest streak.
\<close>

definition ledger_frame :: "app \<Rightarrow> app \<Rightarrow> bool" where
  "ledger_frame s s' \<longleftrightarrow>
     streak s' = streak s \<and> last_study_date s' = last_study_date s \<and>
     review_schedule s' = review_schedule s \<and> mastery_levels s' = mastery_levels s \<and>
     question_memory s' = question_memory s \<and> review_queue s' = review_queue s \<and>
     topic_accuracy s' = topic_accuracy s \<and> quest_store s' = quest_store s \<and>
     active_quests s' = active_quests s \<and> completed_quests s' = completed_quests s \<and>
     streak_freezes s' = streak_freezes s \<and>
     streak_freeze_used_today s' = streak_freeze_used_today s \<and>
     hard_mode s' = hard_mode s \<and> exam_simulator s' = exam_simulator s \<and>
     bonus_visualizations s' = bonus_visualizations s \<and> case_studies s' = case_studies s"

text \<open>
  A quest takes part in a call of \<open>update_quest_progress\<close> when its type is the one
  asked for and the topic filter does not skip it (the negation of the \<open>continue\<close>
  condition).
\<close>

definition quest_matches :: "string \<Rightarrow> int option \<Rightarrow> quest \<Rightarrow> bool" where
  "quest_matches quest_type topic_arg q \<longleftrightarrow>
     qtype q = quest_type \<and>
     \<not> (truthy topic_arg \<and> truthy (target_topic q) \<and> target_topic q \<noteq> topic_arg)"

text \<open>The state right after the progress assignment of one pass of the loop.\<close>

definition bump :: "app \<Rightarrow> nat \<Rightarrow> int \<Rightarrow> app" where
  "bump s r amount = s\<lparr>quest_store := (quest_store s)
      (r := (quest_store s r)\<lparr>progress := min (target (quest_store s r))
                                             (progress (quest_store s r) + amount)\<rparr>)\<rparr>"

text \<open>
  What the achievement and feature unlocks inside \<open>complete_quest\<close> leave alone: the quest
  objects and both quest lists; the xp does not go down.
\<close>

definition quest_frame :: "app \<Rightarrow> app \<Rightarrow> bool" where
  "quest_frame s s' \<longleftrightarrow>
     quest_store s' = quest_store s \<and> active_quests s' = active_quests s \<and>
     completed_quests s' = completed_quests s \<and> xp s \<le> xp s'"

text \<open>
  Well-formed quest lists: no quest object is listed twice as active, none is both active
  and completed, and no two entries of the completed list are equal records.  The empty
  lists of the initial state are well-formed.
\<close>

definition quests_wf :: "app \<Rightarrow> bool" where
  "quests_wf s \<longleftrightarrow>
     distinct (active_quests s) \<and> set (active_quests s) \<inter> set (completed_quests s) = {} \<and>
     distinct (map (quest_store s) (completed_quests s))"

text \<open>
  The same while the loop runs, together with the part \<open>rs\<close> of the iterated list that
  is still to come: it has no repetition and none of its objects is completed yet.
\<close>

definition loop_inv :: "app \<Rightarrow> nat list \<Rightarrow> bool" where
  "loop_inv s rs \<longleftrightarrow>
     distinct rs \<and> set rs \<inter> set (completed_quests s) = {} \<and>
     distinct (map (quest_store s) (completed_quests s)) \<and>
     distinct (active_quests s) \<and> set (active_quests s) \<inter> set (completed_quests s) = {}"

text \<open>
  Sample quests, as \<open>generate_daily_quests\<close> writes them on day 100 (titles without
  their pictograms), and two states: \<open>sample_day\<close> has the quiz quest and the study quest
  for topic 5 active; in \<open>sample_restart\<close> the quiz quest of the day is in the completed
  list and a regenerated copy of it, with four of five answers, is active (the state after
  the learner finished the day's quests, restarted the application on the same day, so
  that \<open>check_and_generate_quests\<close> found no active quest, and answered four questions).
\<close>

definition daily_quiz :: quest where
  "daily_quiz = \<lparr> quest_id = ''daily_quiz_100'', title = ''Complete Daily Quiz'',
     description = ''Complete a 5-question mini-quiz on any topic'', qtype = ''quiz'',
     target_topic = None, target = 5, progress = 0, xp_reward = 25, generated_date = 100,
     is_weekly = None \<rparr>"

definition topic_study :: quest where
  "topic_study = \<lparr> quest_id = ''topic_study_100'', title = ''Study Topic 5'',
     description = ''Review study material for Clustering and Unsupervised Learning'', qtype = ''study'',
     target_topic = Some 5, target = 1, progress = 0, xp_reward = 15, generated_date = 100,
     is_weekly = None \<rparr>"

definition sample_day :: app where
  "sample_day = init_app\<lparr>quest_store := (quest_store init_app)(0 := daily_quiz, 1 := topic_study),
     active_quests := [0, 1]\<rparr>"

definition sample_restart :: app where
  "sample_restart = init_app\<lparr>quest_store := (quest_store init_app)
       (0 := daily_quiz\<lparr>progress := 4\<rparr>, 1 := daily_quiz\<lparr>progress := 5\<rparr>),
     active_quests := [0], completed_quests := [1]\<rparr>"

text \<open>
  Two states with the same xp, level and achievement list: all that \<open>add_xp\<close> and
  \<open>unlock_achievement\<close> read.
\<close>

definition same_ledger :: "app \<Rightarrow> app \<Rightarrow> bool" where
  "same_ledger s t \<longleftrightarrow> xp s = xp t \<and> level s = level t \<and> achievements s = achievements t"

text \<open>
  The stored longest streak is at least the current streak.  \<open>save_data\<close> establishes
  this, and every operation that raises the streak ends with \<open>save_data\<close>.
\<close>

definition streak_recorded :: "app \<Rightarrow> bool" where
  "streak_recorded s \<longleftrightarrow> streak s \<le> get_longest_streak s"

text \<open>
  The xp that did not come from achievement bonuses: every unlocked achievement is worth
  exactly 50 xp.
\<close>

definition base_xp :: "app \<Rightarrow> int" where
  "base_xp s = xp s - 50 * int (length (achievements s))"

text \<open>The quests a call appended to the completed list, in the order of completion.\<close>

definition newly_completed :: "app \<Rightarrow> app \<Rightarrow> nat list" where
  "newly_completed s s' = drop (length (completed_quests s)) (completed_quests s')"

section \<open>Basic facts\<close>

lemma save_data_fields [simp]:
  "xp (save_data s) = xp s" "level (save_data s) = level s" "streak (save_data s) = streak s"
  "last_study_date (save_data s) = last_study_date s"
  "achievements (save_data s) = achievements s"
  "review_schedule (save_data s) = review_schedule s"
  "mastery_levels (save_data s) = mastery_levels s"
  "question_memory (save_data s) = question_memory s"
  "review_queue (save_data s) = review_queue s"
  "topic_accuracy (save_data s) = topic_accuracy s"
  "quest_store (save_data s) = quest_store s"
  "active_quests (save_data s) = active_quests s"
  "completed_quests (save_data s) = completed_quests s"
  "streak_freezes (save_data s) = streak_freezes s"
  "streak_freeze_used_today (save_data s) = streak_freeze_used_today s"
  "hard_mode (save_data s) = hard_mode s" "exam_simulator (save_data s) = exam_simulator s"
  "bonus_visualizations (save_data s) = bonus_visualizations s"
  "case_studies (save_data s) = case_studies s"
  by (simp_all add: save_data_def)

lemma get_longest_streak_save_data:
  "get_longest_streak (save_data s) = max (get_longest_streak s) (streak s)"
  by (simp add: save_data_def get_longest_streak_def)

lemma get_mastery_save_data [simp]: "get_mastery (save_data s) k = get_mastery s k"
  by (simp add: get_mastery_def)

lemma ledger_frame_refl [simp]: "ledger_frame s s"
  by (simp add: ledger_frame_def)

lemma ledger_frame_save_data [simp]: "ledger_frame s (save_data s') = ledger_frame s s'"
  by (simp add: ledger_frame_def)

lemma ledger_frame_add_xp_unlock:
  "ledger_frame s (add_xp s amount)"
  "ledger_frame t (unlock_achievement t name)"
proof (induction s amount and t name rule: add_xp_unlock_achievement.induct)
  case (1 s amount)
  show ?case
  proof (cases "1 + (xp s + amount) div 100 > level s")
    case True
    from 1 [OF refl refl refl] True
    have "ledger_frame (s\<lparr>xp := xp s + amount, level := 1 + (xp s + amount) div 100\<rparr>)
            (unlock_achievement (s\<lparr>xp := xp s + amount, level := 1 + (xp s + amount) div 100\<rparr>)
               (''Level '' @ py_str (1 + (xp s + amount) div 100) @ '' Reached!''))"
      by simp
    then show ?thesis using True
      by (simp add: add_xp.simps [of s amount] ledger_frame_def)
  next
    case False
    then show ?thesis by (simp add: add_xp.simps [of s amount] ledger_frame_def)
  qed
next
  case (2 t name)
  show ?case
  proof (cases "name \<in> set (achievements t)")
    case True
    then show ?thesis by (simp add: unlock_achievement.simps [of t name])
  next
    case False
    from 2 [OF False] False show ?thesis
      by (simp add: unlock_achievement.simps [of t name] ledger_frame_def)
  qed
qed

text \<open>
  After \<open>add_xp\<close> the level is always recomputed from the xp, and neither function ever
  takes xp away beyond the amount passed in.
\<close>

lemma xp_level_add_xp_unlock:
  "level (add_xp s amount) = 1 + xp (add_xp s amount) div 100
     \<and> xp s + amount \<le> xp (add_xp s amount)"
  "(level t = 1 + xp t div 100 \<longrightarrow>
       level (unlock_achievement t name) = 1 + xp (unlock_achievement t name) div 100)
     \<and> xp t \<le> xp (unlock_achievement t name)"
proof (induction s amount and t name rule: add_xp_unlock_achievement.induct)
  case (1 s amount)
  show ?case
  proof (cases "1 + (xp s + amount) div 100 > level s")
    case True
    from 1 [OF refl refl refl] True show ?thesis
      by (simp add: add_xp.simps [of s amount])
  next
    case False
    then show ?thesis by (simp add: add_xp.simps [of s amount])
  qed
next
  case (2 t name)
  show ?case
  proof (cases "name \<in> set (achievements t)")
    case True
    then show ?thesis by (simp add: unlock_achievement.simps [of t name])
  next
    case False
    from 2 [OF False] False show ?thesis
      by (simp add: unlock_achievement.simps [of t name])
  qed
qed

lemma add_xp_no_level_up:
  "1 + (xp s + amount) div 100 \<le> level s \<Longrightarrow>
   add_xp s amount = save_data (s\<lparr>xp := xp s + amount, level := 1 + (xp s + amount) div 100\<rparr>)"
  by (simp add: add_xp.simps [of s amount])

section \<open>Mastery bounds and the review schedule\<close>

lemma new_mastery_bounds:
  "0 \<le> m \<Longrightarrow> m \<le> 5 \<Longrightarrow> 0 \<le> new_mastery m sc \<and> new_mastery m sc \<le> 5"
  by (simp add: new_mastery_def)

lemma new_mastery_nonneg: "0 \<le> m \<Longrightarrow> 0 \<le> new_mastery m sc"
  by (simp add: new_mastery_def)

text \<open>
  For a mastery that is not negative, \<open>int\<close> is the floor, the index is in range, and the
  lookup cannot raise.
\<close>

lemma interval_lookup:
  assumes "0 \<le> m"
  shows "py_index review_intervals (min (py_int m) 5) =
           Inr (review_intervals ! nat (max 0 (min 5 \<lfloor>m\<rfloor>)))"
proof -
  have f: "0 \<le> \<lfloor>m\<rfloor>" using assms by simp
  have "py_int m = \<lfloor>m\<rfloor>" using assms by (simp add: py_int_def)
  moreover have "min \<lfloor>m\<rfloor> 5 = max 0 (min 5 \<lfloor>m\<rfloor>)" using f by simp
  moreover have "0 \<le> min \<lfloor>m\<rfloor> 5" "min \<lfloor>m\<rfloor> 5 < 6" using f by simp_all
  ultimately show ?thesis
    by (simp add: py_index_def review_intervals_def)
qed

lemma update_spaced_repetition_ok:
  assumes "0 \<le> get_mastery s k"
  shows "update_spaced_repetition today s k sc =
     Inr (save_data (s\<lparr>mastery_levels := (mastery_levels s)(k \<mapsto> new_mastery (get_mastery s k) sc),
        review_schedule := (review_schedule s)(k \<mapsto> today +
            review_intervals ! nat (max 0 (min 5 \<lfloor>new_mastery (get_mastery s k) sc\<rfloor>)))\<rparr>))"
  using interval_lookup [OF new_mastery_nonneg [OF assms, of sc]]
  by (simp add: update_spaced_repetition_def Let_def)

lemma update_spaced_repetition_mastery:
  assumes "0 \<le> get_mastery s k"
  shows "\<exists>s'. update_spaced_repetition today s k sc = Inr s' \<and>
     get_mastery s' k = new_mastery (get_mastery s k) sc"
  by (simp add: update_spaced_repetition_ok [OF assms] get_mastery_def)

lemma run_updates_bounds:
  "0 \<le> get_mastery s k \<Longrightarrow> get_mastery s k \<le> 5 \<Longrightarrow>
   \<exists>s'. run_updates s k calls = Inr s' \<and> 0 \<le> get_mastery s' k \<and> get_mastery s' k \<le> 5"
proof (induction calls arbitrary: s)
  case Nil
  then show ?case by simp
next
  case (Cons c calls)
  obtain today sc where c: "c = (today, sc)" by (cases c)
  from update_spaced_repetition_mastery [OF Cons.prems(1), of today sc]
  obtain s1 where s1: "update_spaced_repetition today s k sc = Inr s1"
    and m1: "get_mastery s1 k = new_mastery (get_mastery s k) sc" by blast
  have "0 \<le> get_mastery s1 k \<and> get_mastery s1 k \<le> 5"
    using new_mastery_bounds [OF Cons.prems] m1 by simp
  then obtain s' where "run_updates s1 k calls = Inr s'"
    "0 \<le> get_mastery s' k" "get_mastery s' k \<le> 5"
    using Cons.IH [of s1] by blast
  then show ?case using c s1 by simp
qed

text \<open>
  Claim C1.  Start from any state in which the topic's mastery reads 0 (as it does for
  every topic of a fresh state) and make any sequence of \<open>update_spaced_repetition\<close> calls
  for that topic, on any days and with any scores, in particular scores in [0, 1].  After
  every call of the sequence (every prefix \<open>take n calls\<close>) the call has returned without
  an exception and the topic's mastery lies in [0, 5].
\<close>

theorem mastery_stays_in_range:
  assumes "get_mastery s k = 0"
  shows "\<forall>n \<le> length calls. \<exists>s'. run_updates s k (take n calls) = Inr s' \<and>
           0 \<le> get_mastery s' k \<and> get_mastery s' k \<le> 5"
  using run_updates_bounds [of s k] assms by simp

text \<open>
  An instance of C1: topic 3 of the initial state, with a good, a moderate and a poor
  score on three consecutive days.
\<close>

theorem mastery_stays_in_range_witness:
  "get_mastery init_app (KInt 3) = 0 \<and>
   (\<exists>s'. run_updates init_app (KInt 3) (take 1 [(0, 9 / 10), (1, 7 / 10), (2, 1 / 10)]) = Inr s' \<and>
           0 \<le> get_mastery s' (KInt 3) \<and> get_mastery s' (KInt 3) \<le> 5) \<and>
   (\<exists>s'. run_updates init_app (KInt 3) (take 3 [(0, 9 / 10), (1, 7 / 10), (2, 1 / 10)]) = Inr s' \<and>
           0 \<le> get_mastery s' (KInt 3) \<and> get_mastery s' (KInt 3) \<le> 5)"
proof -
  have h: "get_mastery init_app (KInt 3) = 0" by (simp add: get_mastery_def init_app_def)
  have "(1::nat) \<le> length [(0::int, 9 / 10 :: rat), (1, 7 / 10), (2, 1 / 10)]"
    "(3::nat) \<le> length [(0::int, 9 / 10 :: rat), (1, 7 / 10), (2, 1 / 10)]" by simp_all
  then show ?thesis
    using h mastery_stays_in_range [OF h, of "[(0, 9 / 10), (1, 7 / 10), (2, 1 / 10)]"]
    by blast
qed

text \<open>
  Claim C2.  For a topic whose mastery is not negative, one call of
  \<open>update_spaced_repetition\<close> with score \<open>sc\<close> returns normally, sets the mastery to
  \<open>min(5, mastery + 1)\<close> when \<open>sc \<ge> 0.8\<close>, to \<open>max(0, mastery - 0.5)\<close> when
  \<open>0.6 \<le> sc < 0.8\<close> and to \<open>max(0, mastery - 1)\<close> when \<open>sc < 0.6\<close>, and stores as next
  review date today plus the entry of \<open>[1, 3, 7, 14, 30, 60]\<close> at the floor of the new
  mastery clamped to [0, 5].  For a topic with mastery 0: with no schedule entry it is due;
  after a call with score 0.9 the mastery is 1 and the next review date is today + 3; the
  topic is then not due on the three days today, today + 1 and today + 2, and it is due on
  the fourth day, today + 3, and on every later day (\<open>d\<close> counts days from today).
\<close>

theorem update_spaced_repetition_rule:
  "(0 \<le> get_mastery s k \<longrightarrow>
      (\<exists>s'. update_spaced_repetition today s k sc = Inr s' \<and>
         get_mastery s' k =
           (if sc \<ge> 8 / 10 then min 5 (get_mastery s k + 1)
            else if sc \<ge> 6 / 10 then max 0 (get_mastery s k - 1 / 2)
            else max 0 (get_mastery s k - 1)) \<and>
         review_schedule s' k =
           Some (today + [1, 3, 7, 14, 30, 60] ! nat (max 0 (min 5 \<lfloor>get_mastery s' k\<rfloor>))))) \<and>
   (get_mastery s k = 0 \<longrightarrow>
      (review_schedule s k = None \<longrightarrow> check_spaced_repetition today s k) \<and>
      (\<exists>s'. update_spaced_repetition today s k (9 / 10) = Inr s' \<and>
         get_mastery s' k = 1 \<and> review_schedule s' k = Some (today + 3) \<and>
         (\<forall>d. check_spaced_repetition (today + d) s' k \<longleftrightarrow> 3 \<le> d)))"
proof (intro conjI impI)
  assume a: "0 \<le> get_mastery s k"
  show "\<exists>s'. update_spaced_repetition today s k sc = Inr s' \<and>
         get_mastery s' k =
           (if sc \<ge> 8 / 10 then min 5 (get_mastery s k + 1)
            else if sc \<ge> 6 / 10 then max 0 (get_mastery s k - 1 / 2)
            else max 0 (get_mastery s k - 1)) \<and>
         review_schedule s' k =
           Some (today + [1, 3, 7, 14, 30, 60] ! nat (max 0 (min 5 \<lfloor>get_mastery s' k\<rfloor>)))"
    unfolding update_spaced_repetition_ok [OF a]
    by (simp add: get_mastery_def new_mastery_def review_intervals_def)
next
  assume "get_mastery s k = 0" "review_schedule s k = None"
  then show "check_spaced_repetition today s k"
    by (simp add: check_spaced_repetition_def)
next
  assume z: "get_mastery s k = 0"
  then have a: "0 \<le> get_mastery s k" by simp
  have nm: "new_mastery 0 (9 / 10) = 1" by (simp add: new_mastery_def)
  show "\<exists>s'. update_spaced_repetition today s k (9 / 10) = Inr s' \<and>
         get_mastery s' k = 1 \<and> review_schedule s' k = Some (today + 3) \<and>
         (\<forall>d. check_spaced_repetition (today + d) s' k \<longleftrightarrow> 3 \<le> d)"
    unfolding update_spaced_repetition_ok [OF a] z nm
    by (simp add: get_mastery_def review_intervals_def check_spaced_repetition_def)
qed

text \<open>
  An instance of C2: topic 3 of the initial state on day 100.  It is due before the call;
  after the call with score 0.9 it is not due on days 100, 101 and 102 and due on day 103.
\<close>

theorem update_spaced_repetition_rule_witness:
  "0 \<le> get_mastery init_app (KInt 3) \<and> get_mastery init_app (KInt 3) = 0 \<and>
   review_schedule init_app (KInt 3) = None \<and>
   check_spaced_repetition 100 init_app (KInt 3) \<and>
   (\<exists>s'. update_spaced_repetition 100 init_app (KInt 3) (9 / 10) = Inr s' \<and>
      get_mastery s' (KInt 3) = 1 \<and> review_schedule s' (KInt 3) = Some 103 \<and>
      \<not> check_spaced_repetition 100 s' (KInt 3) \<and> \<not> check_spaced_repetition 101 s' (KInt 3) \<and>
      \<not> check_spaced_repetition 102 s' (KInt 3) \<and> check_spaced_repetition 103 s' (KInt 3))"
proof -
  have h: "get_mastery init_app (KInt 3) = 0" "review_schedule init_app (KInt 3) = None"
    by (simp_all add: get_mastery_def init_app_def)
  from update_spaced_repetition_rule [of init_app "KInt 3" 100 "9 / 10"] h
  have due: "check_spaced_repetition 100 init_app (KInt 3)" by simp
  from update_spaced_repetition_rule [of init_app "KInt 3" 100 "9 / 10"] h
  obtain s' where s': "update_spaced_repetition 100 init_app (KInt 3) (9 / 10) = Inr s'"
    "get_mastery s' (KInt 3) = 1" "review_schedule s' (KInt 3) = Some (100 + 3)"
    and d: "\<forall>d. check_spaced_repetition (100 + d) s' (KInt 3) \<longleftrightarrow> 3 \<le> d"
    by auto
  from d [rule_format, of 0] d [rule_format, of 1] d [rule_format, of 2] d [rule_format, of 3]
  have "\<not> check_spaced_repetition 100 s' (KInt 3)" "\<not> check_spaced_repetition 101 s' (KInt 3)"
    "\<not> check_spaced_repetition 102 s' (KInt 3)" "check_spaced_repetition 103 s' (KInt 3)"
    by simp_all
  with h due s' show ?thesis by simp
qed

section \<open>Leveling\<close>

text \<open>
  Claim C3, as stated, fails.  From the initial state, \<open>add_xp(100)\<close> reaches level 2 and
  earns the 50 xp bonus of \<open>Level 2 Reached!\<close>; the second \<open>add_xp(100)\<close> reaches level 3,
  whose bonus carries the xp to 300 and so to level 4 and one more bonus: the result is
  350 xp at level 4.  The single \<open>add_xp(200)\<close> goes straight to level 3 and earns one
  bonus: 250 xp at level 3.
\<close>

theorem add_xp_split_counterexample:
  "(xp (add_xp (add_xp init_app 100) 100), level (add_xp (add_xp init_app 100) 100)) = (350, 4) \<and>
   (xp (add_xp init_app (100 + 100)), level (add_xp init_app (100 + 100))) = (250, 3) \<and>
   (xp (add_xp (add_xp init_app 100) 100), level (add_xp (add_xp init_app 100) 100)) \<noteq>
   (xp (add_xp init_app (100 + 100)), level (add_xp init_app (100 + 100)))"
  by (simp add: add_xp.simps unlock_achievement.simps init_app_def save_data_def
      get_longest_streak_def py_str_def nat_str.simps digit_char_def)

lemma same_ledger_save_data [simp]:
  "same_ledger (save_data s) t = same_ledger s t" "same_ledger s (save_data t) = same_ledger s t"
  by (simp_all add: same_ledger_def)

text \<open>
  \<open>add_xp\<close> and \<open>unlock_achievement\<close> read nothing but xp, level and achievements.
\<close>

lemma same_ledger_add_xp_unlock:
  "same_ledger s t \<Longrightarrow> same_ledger (add_xp s amount) (add_xp t amount)"
  "same_ledger u v \<Longrightarrow> same_ledger (unlock_achievement u name) (unlock_achievement v name)"
proof (induction s amount and u name arbitrary: t and v rule: add_xp_unlock_achievement.induct)
  case (1 s amount)
  let ?s2 = "s\<lparr>xp := xp s + amount, level := 1 + (xp s + amount) div 100\<rparr>"
  let ?t2 = "t\<lparr>xp := xp t + amount, level := 1 + (xp t + amount) div 100\<rparr>"
  have e: "xp t = xp s" "level t = level s" "achievements t = achievements s"
    using 1(2) by (simp_all add: same_ledger_def)
  have l2: "same_ledger ?s2 ?t2" using 1(2) by (simp add: same_ledger_def)
  show ?case
  proof (cases "1 + (xp s + amount) div 100 > level s")
    case True
    from 1(1) [OF refl refl refl, of ?t2] True l2
    have "same_ledger (unlock_achievement ?s2 (''Level '' @ py_str (level ?s2) @ '' Reached!''))
            (unlock_achievement ?t2 (''Level '' @ py_str (level ?s2) @ '' Reached!''))"
      by simp
    then show ?thesis using True
      by (simp add: add_xp.simps [of s amount] add_xp.simps [of t amount] e)
  next
    case False
    then show ?thesis using l2
      by (simp add: add_xp.simps [of s amount] add_xp.simps [of t amount] e)
  qed
next
  case (2 u name)
  have e: "achievements v = achievements u" using 2(2) by (simp add: same_ledger_def)
  show ?case
  proof (cases "name \<in> set (achievements u)")
    case True
    then show ?thesis using 2(2)
      by (simp add: unlock_achievement.simps [of u name] unlock_achievement.simps [of v name] e)
  next
    case False
    have "same_ledger (u\<lparr>achievements := achievements u @ [name]\<rparr>)
                      (v\<lparr>achievements := achievements v @ [name]\<rparr>)"
      using 2(2) by (simp add: same_ledger_def)
    from 2(1) [OF False this] False show ?thesis
      by (simp add: unlock_achievement.simps [of u name] unlock_achievement.simps [of v name] e)
  qed
qed

text \<open>A level-up whose achievement is new earns the bonus.\<close>

lemma add_xp_fresh_level_bonus:
  assumes "level s < 1 + (xp s + amount) div 100"
    and "''Level '' @ py_str (1 + (xp s + amount) div 100) @ '' Reached!'' \<notin> set (achievements s)"
  shows "xp s + amount + 50 \<le> xp (add_xp s amount)"
proof -
  let ?s2 = "s\<lparr>xp := xp s + amount, level := 1 + (xp s + amount) div 100\<rparr>"
  let ?n = "''Level '' @ py_str (1 + (xp s + amount) div 100) @ '' Reached!''"
  have "add_xp s amount = save_data (save_data (add_xp (?s2\<lparr>achievements := achievements s @ [?n]\<rparr>) 50))"
    using assms by (simp add: add_xp.simps [of s amount] unlock_achievement.simps [of ?s2])
  then show ?thesis
    using xp_level_add_xp_unlock(1) [of "?s2\<lparr>achievements := achievements s @ [?n]\<rparr>" 50]
    by simp
qed

text \<open>
  Claim C3, amended.  Whenever the first call leaves the level as it is
  (\<open>1 + (xp + x) // 100\<close> is the current level; from a state with
  \<open>level = 1 + xp // 100\<close> and \<open>x \<ge> 0\<close>: whenever \<open>x\<close> does not reach the next multiple of
  100), \<open>add_xp(x)\<close> followed by \<open>add_xp(y)\<close> ends with the same xp and level as the single
  call \<open>add_xp(x + y)\<close>, for every \<open>y\<close>, with all level-ups, bonuses and cascades of the
  second call.  The common result has its level recomputed from its xp and at least
  \<open>xp + x + y\<close> xp; it is exactly \<open>(xp + x + y, level)\<close> when \<open>y\<close> reaches no further
  multiple of 100, and it includes the bonus of 50 when the level rises and the
  achievement of the new level is not yet unlocked.  (When the first call itself raises
  the level the two can differ, as above.)
\<close>

theorem add_xp_split_first_call_keeps_level:
  assumes "1 + (xp s + x) div 100 = level s"
  shows "(xp (add_xp (add_xp s x) y), level (add_xp (add_xp s x) y)) =
           (xp (add_xp s (x + y)), level (add_xp s (x + y))) \<and>
         level (add_xp s (x + y)) = 1 + xp (add_xp s (x + y)) div 100 \<and>
         xp s + x + y \<le> xp (add_xp s (x + y)) \<and>
         ((xp s + x + y) div 100 = (xp s + x) div 100 \<longrightarrow>
            (xp (add_xp s (x + y)), level (add_xp s (x + y))) = (xp s + x + y, level s)) \<and>
         (level s < 1 + (xp s + x + y) div 100 \<and>
          ''Level '' @ py_str (1 + (xp s + x + y) div 100) @ '' Reached!'' \<notin> set (achievements s) \<longrightarrow>
            xp s + x + y + 50 \<le> xp (add_xp s (x + y)))"
proof -
  have a: "add_xp s x = save_data (s\<lparr>xp := xp s + x, level := 1 + (xp s + x) div 100\<rparr>)"
    using assms by (simp add: add_xp_no_level_up)
  have sl: "same_ledger (add_xp (add_xp s x) y) (add_xp (s\<lparr>xp := xp s + x\<rparr>) y)"
    by (rule same_ledger_add_xp_unlock(1)) (simp add: a same_ledger_def assms)
  have r: "add_xp (s\<lparr>xp := xp s + x\<rparr>) y = add_xp s (x + y)"
    by (simp add: add_xp.simps [of "s\<lparr>xp := xp s + x\<rparr>" y] add_xp.simps [of s "x + y"]
        add.assoc)
  have 1: "(xp (add_xp (add_xp s x) y), level (add_xp (add_xp s x) y)) =
           (xp (add_xp s (x + y)), level (add_xp s (x + y)))"
    using sl unfolding r by (simp add: same_ledger_def)
  have 2: "level (add_xp s (x + y)) = 1 + xp (add_xp s (x + y)) div 100"
    "xp s + x + y \<le> xp (add_xp s (x + y))"
    using xp_level_add_xp_unlock(1) [of s "x + y"] by (simp_all add: add.assoc)
  have 3: "(xp s + x + y) div 100 = (xp s + x) div 100 \<longrightarrow>
            (xp (add_xp s (x + y)), level (add_xp s (x + y))) = (xp s + x + y, level s)"
  proof
    assume h: "(xp s + x + y) div 100 = (xp s + x) div 100"
    have "add_xp s (x + y) =
        save_data (s\<lparr>xp := xp s + (x + y), level := 1 + (xp s + (x + y)) div 100\<rparr>)"
      by (rule add_xp_no_level_up) (use h assms in \<open>simp add: add.assoc [symmetric]\<close>)
    then show "(xp (add_xp s (x + y)), level (add_xp s (x + y))) = (xp s + x + y, level s)"
      using h assms by (simp add: add.assoc [symmetric])
  qed
  have 4: "level s < 1 + (xp s + x + y) div 100 \<and>
          ''Level '' @ py_str (1 + (xp s + x + y) div 100) @ '' Reached!'' \<notin> set (achievements s) \<longrightarrow>
            xp s + x + y + 50 \<le> xp (add_xp s (x + y))"
    using add_xp_fresh_level_bonus [of s "x + y"] by (simp add: add.assoc [symmetric])
  from 1 2 3 4 show ?thesis by blast
qed

text \<open>
  Instances from the initial state: 60 xp and then 200 xp against 260 xp at once (both
  reach level 3, whose bonus carries on to level 4 and a second bonus), and 30 xp and then
  40 xp against 70 xp at once (no level-up).
\<close>

theorem add_xp_split_first_call_keeps_level_witness:
  "1 + (xp init_app + 60) div 100 = level init_app \<and>
   (xp (add_xp (add_xp init_app 60) 200), level (add_xp (add_xp init_app 60) 200)) = (360, 4) \<and>
   (xp (add_xp init_app (60 + 200)), level (add_xp init_app (60 + 200))) = (360, 4) \<and>
   level init_app < 1 + (xp init_app + 60 + 200) div 100 \<and>
   ''Level '' @ py_str (1 + (xp init_app + 60 + 200) div 100) @ '' Reached!''
      \<notin> set (achievements init_app) \<and>
   xp init_app + 60 + 200 + 50 \<le> xp (add_xp init_app (60 + 200)) \<and>
   1 + (xp init_app + 30) div 100 = level init_app \<and>
   (xp init_app + 30 + 40) div 100 = (xp init_app + 30) div 100 \<and>
   (xp (add_xp (add_xp init_app 30) 40), level (add_xp (add_xp init_app 30) 40)) = (70, 1) \<and>
   (xp (add_xp init_app (30 + 40)), level (add_xp init_app (30 + 40))) = (70, 1)"
proof -
  have h1: "1 + (xp init_app + 60) div 100 = level init_app"
    and h2: "1 + (xp init_app + 30) div 100 = level init_app"
    by (simp_all add: init_app_def)
  have v: "xp init_app = 0" "level init_app = 1" "achievements init_app = []"
    by (simp_all add: init_app_def)
  have e: "(xp (add_xp init_app (60 + 200)), level (add_xp init_app (60 + 200))) = (360, 4)"
    by (simp add: add_xp.simps unlock_achievement.simps init_app_def save_data_def
        get_longest_streak_def py_str_def nat_str.simps digit_char_def)
  show ?thesis
    using add_xp_split_first_call_keeps_level [OF h1, of 200]
      add_xp_split_first_call_keeps_level [OF h2, of 40] e
    by (simp add: v)
qed

section \<open>Streak\<close>

lemma frame_streak:
  "ledger_frame s s' \<Longrightarrow> streak s' = streak s \<and> last_study_date s' = last_study_date s"
  by (simp add: ledger_frame_def)

lemma update_streak_fields:
  assumes "last_study_date s \<noteq> Some today"
  shows "last_study_date (update_streak today s) = Some today"
    and "streak (update_streak today s) =
           (if last_study_date s = Some (today - 1) then streak s + 1 else 1)"
proof -
  define s1 where "s1 = (case last_study_date s of
                     Some d \<Rightarrow>
                       (let yesterday = today - 1
                        in if d = yesterday then s\<lparr>streak := streak s + 1\<rparr>
                           else s\<lparr>streak := 1\<rparr>)
                   | None \<Rightarrow> s\<lparr>streak := 1\<rparr>)"
  define s2 where "s2 = s1\<lparr>last_study_date := Some today\<rparr>"
  define s3 where "s3 = (if streak s2 mod 7 = 0
                   then unlock_achievement s2 (py_str (streak s2) @ '' Day Streak!'')
                   else s2)"
  have u: "update_streak today s = save_data s3"
    using assms by (simp add: update_streak_def s1_def s2_def s3_def Let_def)
  have f: "streak s3 = streak s2 \<and> last_study_date s3 = last_study_date s2"
    using frame_streak [OF ledger_frame_add_xp_unlock(2)] by (simp add: s3_def)
  have st: "streak s1 = (if last_study_date s = Some (today - 1) then streak s + 1 else 1)"
    by (simp add: s1_def Let_def split: option.split)
  show "last_study_date (update_streak today s) = Some today"
    using f by (simp add: u s2_def)
  show "streak (update_streak today s) =
           (if last_study_date s = Some (today - 1) then streak s + 1 else 1)"
    using f st by (simp add: u s2_def)
qed

text \<open>
  Claim C4.  \<open>update_streak\<close> on day \<open>today\<close>: when the last study date is today the call
  changes nothing; when it is yesterday the streak grows by exactly 1; when it is older
  than yesterday, or absent (the very first call), the streak becomes 1; whenever the last
  study date is not today, it is set to today.  A second call on the same day changes
  nothing more.
\<close>

theorem update_streak_law:
  "(last_study_date s = Some today \<longrightarrow> update_streak today s = s) \<and>
   (last_study_date s = Some (today - 1) \<longrightarrow> streak (update_streak today s) = streak s + 1) \<and>
   ((last_study_date s = None \<or> (\<exists>d. last_study_date s = Some d \<and> d < today - 1)) \<longrightarrow>
        streak (update_streak today s) = 1) \<and>
   (last_study_date s \<noteq> Some today \<longrightarrow> last_study_date (update_streak today s) = Some today) \<and>
   update_streak today (update_streak today s) = update_streak today s"
proof (intro conjI impI)
  assume "last_study_date s = Some today"
  then show "update_streak today s = s" by (simp add: update_streak_def)
next
  assume "last_study_date s = Some (today - 1)"
  then show "streak (update_streak today s) = streak s + 1"
    by (simp add: update_streak_fields(2))
next
  assume "last_study_date s = None \<or> (\<exists>d. last_study_date s = Some d \<and> d < today - 1)"
  then show "streak (update_streak today s) = 1"
    by (auto simp: update_streak_fields(2))
next
  assume "last_study_date s \<noteq> Some today"
  then show "last_study_date (update_streak today s) = Some today"
    by (rule update_streak_fields(1))
next
  have "last_study_date (update_streak today s) = Some today"
    by (cases "last_study_date s = Some today")
       (simp_all add: update_streak_fields(1), simp add: update_streak_def)
  then show "update_streak today (update_streak today s) = update_streak today s"
    by (simp add: update_streak_def [of today "update_streak today s"])
qed

text \<open>
  Instances of C4 on day 100 with a streak of 3: last studied on day 100, on day 99, on
  day 90, and never.
\<close>

theorem update_streak_law_witness:
  "update_streak 100 (init_app\<lparr>streak := 3, last_study_date := Some 100\<rparr>) =
     init_app\<lparr>streak := 3, last_study_date := Some 100\<rparr> \<and>
   streak (update_streak 100 (init_app\<lparr>streak := 3, last_study_date := Some 99\<rparr>)) = 4 \<and>
   last_study_date (update_streak 100 (init_app\<lparr>streak := 3, last_study_date := Some 99\<rparr>))
     = Some 100 \<and>
   streak (update_streak 100 (init_app\<lparr>streak := 3, last_study_date := Some 90\<rparr>)) = 1 \<and>
   streak (update_streak 100 (init_app\<lparr>streak := 3\<rparr>)) = 1"
  using update_streak_law [of "init_app\<lparr>streak := 3, last_study_date := Some 100\<rparr>" 100]
    update_streak_law [of "init_app\<lparr>streak := 3, last_study_date := Some 99\<rparr>" 100]
    update_streak_law [of "init_app\<lparr>streak := 3, last_study_date := Some 90\<rparr>" 100]
    update_streak_law [of "init_app\<lparr>streak := 3\<rparr>" 100]
  by (simp add: init_app_def)

section \<open>Streak guardrails\<close>

text \<open>
  The stored longest streak is never behind the streak: this holds of the initial state
  and after every \<open>save_data\<close>, and each operation of the engine keeps it.  The streak
  grows only in \<open>update_streak\<close>, which ends with \<open>save_data\<close>.
\<close>

lemma streak_recorded_init: "streak_recorded init_app"
  by (simp add: streak_recorded_def get_longest_streak_def init_app_def)

lemma streak_recorded_save_data [simp]: "streak_recorded (save_data s)"
  by (simp add: streak_recorded_def save_data_def get_longest_streak_def)

lemma streak_recorded_add_xp [simp]: "streak_recorded (add_xp s amount)"
  by (simp add: add_xp.simps [of s amount] Let_def)

lemma streak_recorded_unlock:
  "streak_recorded s \<Longrightarrow> streak_recorded (unlock_achievement s name)"
  by (simp add: unlock_achievement.simps [of s name])

lemma streak_recorded_update_streak:
  "streak_recorded s \<Longrightarrow> streak_recorded (update_streak today s)"
  by (simp add: update_streak_def Let_def)

lemma streak_recorded_check:
  "streak_recorded s \<Longrightarrow> streak_recorded (fst (check_streak_with_guardrails today response s))"
  by (auto simp: check_streak_with_guardrails_def Let_def use_streak_freeze_def streak_recorded_def
      get_longest_streak_def save_data_def)

lemma streak_recorded_others:
  "streak_recorded (update_question_memory h now s q c conf_arg)"
  "streak_recorded s \<Longrightarrow> streak_recorded (add_to_review s x)"
  "streak_recorded (update_quest_progress s ty a tp)"
  "update_spaced_repetition today s k sc = Inr s' \<Longrightarrow> streak_recorded s'"
  by (auto simp: update_question_memory_def add_to_review_def update_quest_progress_def
      update_spaced_repetition_def Let_def split: sum.splits)

text \<open>
  Claim C7.  In a state of the engine (the longest streak on record is not behind the
  streak): if the last study date is strictly earlier than yesterday, the streak is
  positive and no freeze is consumed (no freezes left, or one already used today, or the
  offer declined), then \<open>check_streak_with_guardrails\<close> returns false, resets the streak to
  0, and the longest streak ends up equal to the maximum of its prior value and the
  streak before the reset.
\<close>

theorem guardrail_reset:
  assumes "last_study_date s = Some d" and "d < today - 1" and "streak s > 0"
    and "streak_freezes s \<le> 0 \<or> streak_freeze_used_today s \<or> \<not> response"
    and "streak_recorded s"
  shows "snd (check_streak_with_guardrails today response s) = False \<and>
         streak (fst (check_streak_with_guardrails today response s)) = 0 \<and>
         get_longest_streak (fst (check_streak_with_guardrails today response s)) =
            max (get_longest_streak s) (streak s)"
proof -
  have c: "check_streak_with_guardrails today response s = (s\<lparr>streak := 0\<rparr>, False)"
    using assms(1-4) by (auto simp: check_streak_with_guardrails_def Let_def)
  show ?thesis
    unfolding c using assms(5) by (auto simp: get_longest_streak_def streak_recorded_def)
qed

text \<open>
  An instance of C7: a saved state with streak 6 (so the longest streak is 6), last
  studied on day 97, no freezes left, checked on day 100.
\<close>

theorem guardrail_reset_witness:
  "last_study_date (save_data (init_app\<lparr>streak := 6, last_study_date := Some 97, streak_freezes := 0\<rparr>)) = Some 97 \<and>
   (97::int) < 100 - 1 \<and>
   streak (save_data (init_app\<lparr>streak := 6, last_study_date := Some 97, streak_freezes := 0\<rparr>)) > 0 \<and>
   streak_freezes (save_data (init_app\<lparr>streak := 6, last_study_date := Some 97, streak_freezes := 0\<rparr>)) \<le> 0 \<and>
   streak_recorded (save_data (init_app\<lparr>streak := 6, last_study_date := Some 97, streak_freezes := 0\<rparr>)) \<and>
   snd (check_streak_with_guardrails 100 True
      (save_data (init_app\<lparr>streak := 6, last_study_date := Some 97, streak_freezes := 0\<rparr>))) = False \<and>
   streak (fst (check_streak_with_guardrails 100 True
      (save_data (init_app\<lparr>streak := 6, last_study_date := Some 97, streak_freezes := 0\<rparr>)))) = 0 \<and>
   get_longest_streak (fst (check_streak_with_guardrails 100 True
      (save_data (init_app\<lparr>streak := 6, last_study_date := Some 97, streak_freezes := 0\<rparr>)))) = 6"
proof -
  let ?s = "save_data (init_app\<lparr>streak := 6, last_study_date := Some 97, streak_freezes := 0\<rparr>)"
  have h1: "last_study_date ?s = Some 97" by simp
  have h2: "(97::int) < 100 - 1" by simp
  have h3: "streak ?s > 0" by simp
  have h4: "streak_freezes ?s \<le> 0 \<or> streak_freeze_used_today ?s \<or> \<not> True" by simp
  have h5: "streak_recorded ?s" by simp
  have l: "get_longest_streak ?s = 6" "streak ?s = 6"
    by (simp_all add: get_longest_streak_save_data) (simp add: get_longest_streak_def init_app_def)
  show ?thesis
    using guardrail_reset [OF h1 h2 h3 h4 h5] h1 h3 h5 l by simp
qed

section \<open>Review queue\<close>

lemma review_queue_update_question_memory:
  "review_queue (update_question_memory h now s q c conf_arg) =
     (if \<not> c \<and> get_question_id h q \<notin> set (review_queue s)
      then review_queue s @ [get_question_id h q] else review_queue s)"
  by (simp add: update_question_memory_def Let_def)

lemma review_queue_add_to_review:
  "review_queue (add_to_review s x) =
     (if x \<notin> set (review_queue s) then review_queue s @ [x] else review_queue s)"
  by (simp add: add_to_review_def)

lemma count_list_snoc_new:
  "y \<notin> set xs \<Longrightarrow> count_list xs x \<le> 1 \<Longrightarrow> count_list (xs @ [y]) x \<le> 1"
  by (cases "x = y") (simp_all add: count_list_0_iff)

lemma review_step_count:
  "count_list (review_queue s) x \<le> 1 \<Longrightarrow>
   count_list (review_queue (review_step h now s e)) x \<le> 1"
  by (cases e)
     (simp_all add: review_queue_update_question_memory review_queue_add_to_review
        count_list_snoc_new)

lemma review_run_count:
  "count_list (review_queue s) x \<le> 1 \<Longrightarrow>
   count_list (review_queue (review_run h now s es)) x \<le> 1"
proof (induction es arbitrary: s)
  case Nil
  then show ?case by simp
next
  case (Cons e es)
  show ?case
    unfolding review_run.simps by (rule Cons.IH) (rule review_step_count [OF Cons.prems])
qed

text \<open>
  Claim C5.  If the review queue holds at most one copy of an id, then after any sequence
  of \<open>update_question_memory\<close> calls (for any items, correct or not, with any confidence)
  and explicit add-to-review requests (for any ids) it still holds at most one copy of
  it; the queue of the initial state is empty.  An incorrect answer leaves the queue as it
  is when the item's id is present and appends the id otherwise.
\<close>

theorem review_queue_no_duplicates:
  "(count_list (review_queue s) x \<le> 1 \<longrightarrow>
      count_list (review_queue (review_run h now s es)) x \<le> 1) \<and>
   review_queue (update_question_memory h now s q False conf_arg) =
     (if get_question_id h q \<in> set (review_queue s) then review_queue s
      else review_queue s @ [get_question_id h q])"
  using review_run_count [of s x h now es]
  by (simp add: review_queue_update_question_memory)

text \<open>
  An instance of C5: from the initial state, the sample item is answered wrongly twice,
  added by hand, and answered correctly.
\<close>

theorem review_queue_no_duplicates_witness:
  "count_list (review_queue init_app) (get_question_id id sample_question) \<le> 1 \<and>
   count_list (review_queue (review_run id ''t'' init_app
      [Answer sample_question False None, Answer sample_question False (Some ''low''),
       AddToReview (get_question_id id sample_question),
       Answer sample_question True (Some ''high'')])) (get_question_id id sample_question) \<le> 1 \<and>
   review_queue (update_question_memory id ''t'' init_app sample_question False None) =
     [get_question_id id sample_question]"
proof -
  have h: "count_list (review_queue init_app) (get_question_id id sample_question) \<le> 1"
    by (simp add: init_app_def)
  have e: "review_queue init_app = []" by (simp add: init_app_def)
  show ?thesis
    using h review_queue_no_duplicates [of init_app "get_question_id id sample_question" id "''t''"
      "[Answer sample_question False None, Answer sample_question False (Some ''low''),
       AddToReview (get_question_id id sample_question),
       Answer sample_question True (Some ''high'')]" sample_question None]
    by (simp add: e)
qed

section \<open>Confidence and strength\<close>

text \<open>
  Claim C9, as stated, fails.  For a first, correct answer with the confidence value
  \<open>banana\<close> the strength becomes 0.4, the gain of the final \<open>else\<close>, where \<open>medium\<close> gives
  0.7; the value is stored as it came.
\<close>

theorem invalid_confidence_counterexample:
  "map_option strength (question_memory
      (update_question_memory id ''t'' init_app sample_question True (Some ''banana''))
      (get_question_id id sample_question)) = Some (4 / 10) \<and>
   map_option strength (question_memory
      (update_question_memory id ''t'' init_app sample_question True (Some ''medium''))
      (get_question_id id sample_question)) = Some (7 / 10) \<and>
   map_option confidence (question_memory
      (update_question_memory id ''t'' init_app sample_question True (Some ''banana''))
      (get_question_id id sample_question)) = Some ''banana''"
  by (simp add: update_question_memory_def Let_def init_app_def)

text \<open>
  Claim C9, amended.  \<open>update_question_memory\<close> never rejects a confidence value.  With no
  confidence supplied it behaves as for \<open>medium\<close>.  For a correct answer the strength
  grows (capped at 5) by 1 for \<open>high\<close>, by 0.7 for \<open>medium\<close> or no value, and by 0.4 for
  every other value, \<open>low\<close> or invalid; the record stores the value it was given
  (\<open>medium\<close> when none was).
\<close>

theorem confidence_gain:
  "map_option strength (question_memory (update_question_memory h now s q True conf_arg)
        (get_question_id h q)) =
     Some (min 5 ((case question_memory s (get_question_id h q) of
                     None \<Rightarrow> 0 | Some m \<Rightarrow> strength m)
        + (if conf_arg = Some ''high'' then 1
           else if conf_arg = None \<or> conf_arg = Some ''medium'' then 7 / 10 else 4 / 10))) \<and>
   map_option confidence (question_memory (update_question_memory h now s q is_correct conf_arg)
        (get_question_id h q)) =
     Some (case conf_arg of None \<Rightarrow> ''medium'' | Some c \<Rightarrow> c) \<and>
   update_question_memory h now s q is_correct None =
     update_question_memory h now s q is_correct (Some ''medium'')"
  by (simp add: update_question_memory_def Let_def split: option.split)

section \<open>Weakest topic\<close>

text \<open>
  Claim C8 does not hold of the code.  When only topic 2 has been attempted (1 correct
  of 2), \<open>get_weakest_topic\<close> returns the untried topic 1 with accuracy 0: the first
  untried topic sets \<open>lowest_acc\<close> to 0, and no attempted topic can then be strictly
  lower.  When the attempted topic comes first in the catalogue (topic 1 attempted, the
  others untried), the same loop does return the attempted topic.
\<close>

theorem weakest_topic_untried_first:
  "get_weakest_topic (init_app\<lparr>topic_accuracy := [KStr ''2'' \<mapsto> \<lparr>correct = 1, total = 2\<rparr>]\<rparr>)
     = (Some 1, 0) \<and>
   topic_accuracy (init_app\<lparr>topic_accuracy := [KStr ''2'' \<mapsto> \<lparr>correct = 1, total = 2\<rparr>]\<rparr>)
     (KStr (py_str 1)) = None \<and>
   map_option total
     (topic_accuracy (init_app\<lparr>topic_accuracy := [KStr ''2'' \<mapsto> \<lparr>correct = 1, total = 2\<rparr>]\<rparr>)
        (KStr (py_str 2))) = Some 2 \<and>
   get_weakest_topic (init_app\<lparr>topic_accuracy := [KStr ''1'' \<mapsto> \<lparr>correct = 1, total = 2\<rparr>]\<rparr>)
     = (Some 1, 50)"
  by (simp add: get_weakest_topic_def topics_keys_def py_str_def nat_str.simps digit_char_def)

section \<open>Quests\<close>

lemma quest_frame_refl [simp]: "quest_frame s s"
  by (simp add: quest_frame_def)

lemma quest_frame_unlock:
  "quest_frame s0 s \<Longrightarrow> quest_frame s0 (unlock_achievement s n)"
  using ledger_frame_add_xp_unlock(2) [of s n] xp_level_add_xp_unlock(2) [of s n]
  by (simp add: quest_frame_def ledger_frame_def)

lemma quest_frame_flags:
  "quest_frame s0 s \<Longrightarrow> quest_frame s0 (s\<lparr>hard_mode := b\<rparr>)"
  "quest_frame s0 s \<Longrightarrow> quest_frame s0 (s\<lparr>exam_simulator := b\<rparr>)"
  "quest_frame s0 s \<Longrightarrow> quest_frame s0 (s\<lparr>bonus_visualizations := b\<rparr>)"
  "quest_frame s0 s \<Longrightarrow> quest_frame s0 (s\<lparr>case_studies := b\<rparr>)"
  by (simp_all add: quest_frame_def)

lemma quest_frame_if:
  "quest_frame s0 a \<Longrightarrow> quest_frame s0 b \<Longrightarrow> quest_frame s0 (if c then a else b)"
  by simp

lemma quest_frame_unlock_features:
  assumes "quest_frame s0 s3"
  shows "quest_frame s0 (unlock_features s3 n)"
  unfolding unlock_features_def Let_def
  by (intro quest_frame_if quest_frame_unlock quest_frame_flags assms)

lemma complete_quest_done: "quest_in_completed s r \<Longrightarrow> complete_quest s r = s"
  by (simp add: complete_quest_def)

lemma complete_quest_new:
  assumes "\<not> quest_in_completed s r"
  shows "quest_store (complete_quest s r) = quest_store s"
    and "completed_quests (complete_quest s r) = completed_quests s @ [r]"
    and "active_quests (complete_quest s r) =
           filter (\<lambda>q. quest_id (quest_store s q) \<noteq> quest_id (quest_store s r)) (active_quests s)"
    and "xp s + xp_reward (quest_store s r) \<le> xp (complete_quest s r)"
proof -
  define s2 where "s2 = s\<lparr>completed_quests := completed_quests s @ [r],
     active_quests := filter (\<lambda>q. quest_id (quest_store s q) \<noteq> quest_id (quest_store s r))
                        (active_quests s)\<rparr>"
  define s3 where "s3 = add_xp s2 (xp_reward (quest_store s r))"
  have f3: "ledger_frame s2 s3" unfolding s3_def by (rule ledger_frame_add_xp_unlock(1))
  have x3: "xp s2 + xp_reward (quest_store s r) \<le> xp s3"
    unfolding s3_def using xp_level_add_xp_unlock(1) [of s2] by simp
  have eq: "complete_quest s r = unlock_features s3 (int (length (completed_quests s3)))"
    using assms by (simp add: complete_quest_def s3_def s2_def Let_def)
  have "quest_frame s3 (complete_quest s r)"
    unfolding eq by (rule quest_frame_unlock_features) simp
  then have fr: "quest_store (complete_quest s r) = quest_store s3"
    "completed_quests (complete_quest s r) = completed_quests s3"
    "active_quests (complete_quest s r) = active_quests s3"
    "xp s3 \<le> xp (complete_quest s r)"
    by (simp_all add: quest_frame_def)
  have s3f: "quest_store s3 = quest_store s2" "completed_quests s3 = completed_quests s2"
    "active_quests s3 = active_quests s2"
    using f3 by (simp_all add: ledger_frame_def)
  show "quest_store (complete_quest s r) = quest_store s"
    by (simp add: fr s3f s2_def)
  show "completed_quests (complete_quest s r) = completed_quests s @ [r]"
    by (simp add: fr s3f s2_def)
  show "active_quests (complete_quest s r) =
           filter (\<lambda>q. quest_id (quest_store s q) \<noteq> quest_id (quest_store s r)) (active_quests s)"
    by (simp add: fr s3f s2_def)
  show "xp s + xp_reward (quest_store s r) \<le> xp (complete_quest s r)"
    using fr(4) x3 by (simp add: s2_def)
qed

lemma quest_store_complete_quest [simp]: "quest_store (complete_quest s r) = quest_store s"
  by (cases "quest_in_completed s r") (simp_all add: complete_quest_done complete_quest_new(1))

lemma quest_step_cases:
  "quest_step s r ty a tp =
     (if quest_matches ty tp (quest_store s r)
      then (if target (quest_store s r) \<le> progress (quest_store s r) + a
            then complete_quest (bump s r a) r else bump s r a)
      else s)"
  by (simp add: quest_step_def quest_matches_def bump_def Let_def)

lemma quest_store_quest_step:
  "quest_store (quest_step s r ty a tp) =
     (if quest_matches ty tp (quest_store s r)
      then (quest_store s)(r := (quest_store s r)\<lparr>progress :=
              min (target (quest_store s r)) (progress (quest_store s r) + a)\<rparr>)
      else quest_store s)"
  by (simp add: quest_step_cases bump_def)

lemma quest_store_quest_step_other:
  "c \<noteq> r \<Longrightarrow> quest_store (quest_step s r ty a tp) c = quest_store s c"
  by (simp add: quest_store_quest_step)

lemma quest_store_loop_other:
  "c \<notin> set rs \<Longrightarrow> quest_store (update_quest_progress_loop s rs ty a tp) c = quest_store s c"
  by (induction rs arbitrary: s) (simp_all add: quest_store_quest_step_other)

lemma loop_progress:
  "distinct rs \<Longrightarrow> r \<in> set rs \<Longrightarrow> quest_matches ty tp (quest_store s r) \<Longrightarrow>
   quest_store (update_quest_progress_loop s rs ty a tp) r =
     (quest_store s r)\<lparr>progress := min (target (quest_store s r)) (progress (quest_store s r) + a)\<rparr>"
proof (induction rs arbitrary: s)
  case Nil
  then show ?case by simp
next
  case (Cons x rs)
  show ?case
  proof (cases "x = r")
    case True
    with Cons.prems have "r \<notin> set rs" by simp
    then show ?thesis using True Cons.prems(3)
      by (simp add: quest_store_loop_other quest_store_quest_step)
  next
    case False
    with Cons.prems have r: "r \<in> set rs" "distinct rs" by simp_all
    have same: "quest_store (quest_step s x ty a tp) r = quest_store s r"
      using False by (simp add: quest_store_quest_step_other)
    show ?thesis
      using Cons.IH [OF r(2) r(1), of "quest_step s x ty a tp"] Cons.prems(3)
      by (simp add: same)
  qed
qed

lemma loop_skipped:
  "distinct rs \<Longrightarrow> r \<in> set rs \<Longrightarrow> \<not> quest_matches ty tp (quest_store s r) \<Longrightarrow>
   quest_store (update_quest_progress_loop s rs ty a tp) r = quest_store s r"
proof (induction rs arbitrary: s)
  case Nil
  then show ?case by simp
next
  case (Cons x rs)
  show ?case
  proof (cases "x = r")
    case True
    with Cons.prems have "r \<notin> set rs" by simp
    then show ?thesis using True Cons.prems(3)
      by (simp add: quest_store_loop_other quest_store_quest_step)
  next
    case False
    with Cons.prems have r: "r \<in> set rs" "distinct rs" by simp_all
    have same: "quest_store (quest_step s x ty a tp) r = quest_store s r"
      using False by (simp add: quest_store_quest_step_other)
    show ?thesis
      using Cons.IH [OF r(2) r(1), of "quest_step s x ty a tp"] Cons.prems(3)
      by (simp add: same)
  qed
qed

text \<open>
  Claim C10.  Let \<open>r\<close> be an active quest of the type passed to \<open>update_quest_progress\<close>
  (the active list naming no object twice).  If the call passes no topic, or the quest has
  no \<open>target_topic\<close>, or the two are equal, the quest's progress is incremented, that is,
  set to \<open>min(target, progress + amount)\<close>; in particular with no topic every active quest
  of the type is incremented, topic-scoped or not.  And a quest of the type is left out
  only when the call supplies a topic, the quest has a \<open>target_topic\<close>, and they differ.
\<close>

theorem quest_topic_filter:
  assumes "distinct (active_quests s)" and "r \<in> set (active_quests s)"
    and "qtype (quest_store s r) = quest_type"
  shows "(topic_arg = None \<or> target_topic (quest_store s r) = None \<or>
            target_topic (quest_store s r) = topic_arg \<longrightarrow>
          quest_store (update_quest_progress s quest_type amount topic_arg) r =
            (quest_store s r)\<lparr>progress := min (target (quest_store s r))
                                                (progress (quest_store s r) + amount)\<rparr>) \<and>
         (quest_store (update_quest_progress s quest_type amount topic_arg) r =
            (quest_store s r)\<lparr>progress := min (target (quest_store s r))
                                                (progress (quest_store s r) + amount)\<rparr>
          \<or> (\<exists>t t'. topic_arg = Some t \<and> target_topic (quest_store s r) = Some t' \<and> t' \<noteq> t))"
proof -
  have m: "topic_arg = None \<or> target_topic (quest_store s r) = None \<or>
            target_topic (quest_store s r) = topic_arg \<Longrightarrow>
           quest_matches quest_type topic_arg (quest_store s r)"
    using assms(3) by (auto simp: quest_matches_def truthy_def)
  have n: "\<not> quest_matches quest_type topic_arg (quest_store s r) \<Longrightarrow>
           \<exists>t t'. topic_arg = Some t \<and> target_topic (quest_store s r) = Some t' \<and> t' \<noteq> t"
    using assms(3) by (auto simp: quest_matches_def truthy_def split: option.splits)
  show ?thesis
    using m n loop_progress [OF assms(1,2), where ty = quest_type and tp = topic_arg and a = amount]
    by (auto simp: update_quest_progress_def)
qed

text \<open>
  An instance of C10: the study quest for topic 5 of \<open>sample_day\<close> is incremented by a
  call without a topic and by a call for topic 5.
\<close>

theorem quest_topic_filter_witness:
  "distinct (active_quests sample_day) \<and> 1 \<in> set (active_quests sample_day) \<and>
   qtype (quest_store sample_day 1) = ''study'' \<and>
   target_topic (quest_store sample_day 1) = Some 5 \<and>
   progress (quest_store sample_day 1) = 0 \<and>
   progress (quest_store (update_quest_progress sample_day ''study'' 1 None) 1) = 1 \<and>
   progress (quest_store (update_quest_progress sample_day ''study'' 1 (Some 5)) 1) = 1"
proof -
  have h: "distinct (active_quests sample_day)" "1 \<in> set (active_quests sample_day)"
    "qtype (quest_store sample_day 1) = ''study''"
    by (simp_all add: sample_day_def topic_study_def)
  have v: "target_topic (quest_store sample_day 1) = Some 5"
    "progress (quest_store sample_day 1) = 0" "target (quest_store sample_day 1) = 1"
    by (simp_all add: sample_day_def topic_study_def)
  show ?thesis
    using quest_topic_filter [OF h, of None 1] quest_topic_filter [OF h, of "Some 5" 1] h v
    by simp
qed

lemma in_completed_iff:
  "quest_in_completed s r \<longleftrightarrow>
     (\<exists>c\<in>set (completed_quests s). c = r \<or> quest_store s c = quest_store s r)"
  by (simp add: quest_in_completed_def list_ex_iff)

lemma bump_fields [simp]:
  "completed_quests (bump s r a) = completed_quests s"
  "active_quests (bump s r a) = active_quests s"
  "xp (bump s r a) = xp s"
  by (simp_all add: bump_def)

lemma quest_store_bump:
  "quest_store (bump s r a) = (quest_store s)
      (r := (quest_store s r)\<lparr>progress := min (target (quest_store s r))
                                             (progress (quest_store s r) + a)\<rparr>)"
  by (simp add: bump_def)

lemma quest_step_lists:
  "(completed_quests (quest_step s r ty a tp) = completed_quests s \<and>
    active_quests (quest_step s r ty a tp) = active_quests s \<and>
    xp (quest_step s r ty a tp) = xp s \<and>
    (quest_matches ty tp (quest_store s r) \<and> target (quest_store s r) \<le> progress (quest_store s r) + a
       \<longrightarrow> quest_in_completed (bump s r a) r)) \<or>
   (completed_quests (quest_step s r ty a tp) = completed_quests s @ [r] \<and>
    active_quests (quest_step s r ty a tp) =
      filter (\<lambda>q. quest_id (quest_store (bump s r a) q) \<noteq> quest_id (quest_store (bump s r a) r))
        (active_quests s) \<and>
    quest_matches ty tp (quest_store s r) \<and>
    target (quest_store s r) \<le> progress (quest_store s r) + a \<and>
    \<not> quest_in_completed (bump s r a) r)"
proof (cases "quest_matches ty tp (quest_store s r) \<and>
              target (quest_store s r) \<le> progress (quest_store s r) + a")
  case False
  then show ?thesis by (auto simp: quest_step_cases)
next
  case True
  then have st: "quest_step s r ty a tp = complete_quest (bump s r a) r"
    by (simp add: quest_step_cases)
  show ?thesis
  proof (cases "quest_in_completed (bump s r a) r")
    case True
    then show ?thesis by (simp add: st complete_quest_done)
  next
    case False
    from complete_quest_new(2,3) [OF False] False True show ?thesis
      by (simp add: st)
  qed
qed

lemma loop_inv_step:
  assumes "loop_inv s (r # rest)"
  shows "loop_inv (quest_step s r ty a tp) rest"
proof -
  from assms have d: "distinct rest" "r \<notin> set rest" "r \<notin> set (completed_quests s)"
    "set rest \<inter> set (completed_quests s) = {}"
    "distinct (map (quest_store s) (completed_quests s))"
    "distinct (active_quests s)" "set (active_quests s) \<inter> set (completed_quests s) = {}"
    by (auto simp: loop_inv_def)
  have same: "map (quest_store (quest_step s r ty a tp)) (completed_quests s) =
              map (quest_store s) (completed_quests s)"
    using d(3) by (auto simp: quest_store_quest_step quest_store_bump)
  from quest_step_lists [of s r ty a tp] show ?thesis
  proof (elim disjE conjE)
    assume "completed_quests (quest_step s r ty a tp) = completed_quests s"
      "active_quests (quest_step s r ty a tp) = active_quests s"
    then show ?thesis using d by (simp add: loop_inv_def same)
  next
    assume c: "completed_quests (quest_step s r ty a tp) = completed_quests s @ [r]"
      and a: "active_quests (quest_step s r ty a tp) =
        filter (\<lambda>q. quest_id (quest_store (bump s r a) q) \<noteq> quest_id (quest_store (bump s r a) r))
          (active_quests s)"
      and m: "quest_matches ty tp (quest_store s r)"
      and n: "\<not> quest_in_completed (bump s r a) r"
    have st: "quest_store (quest_step s r ty a tp) = quest_store (bump s r a)"
      using m by (auto simp: quest_store_quest_step quest_store_bump)
    have new: "quest_store (bump s r a) r \<notin> quest_store (bump s r a) ` set (completed_quests s)"
      using n by (auto simp: in_completed_iff)
    have dm: "distinct (map (quest_store (bump s r a)) (completed_quests s))"
      using d(5) unfolding same [unfolded st] .
    have r_out: "r \<notin> set (filter (\<lambda>q. quest_id (quest_store (bump s r a) q) \<noteq>
                       quest_id (quest_store (bump s r a) r)) (active_quests s))"
      by simp
    have sub: "set (filter (\<lambda>q. quest_id (quest_store (bump s r a) q) \<noteq>
                       quest_id (quest_store (bump s r a) r)) (active_quests s))
                 \<inter> set (completed_quests s) = {}"
      using d(7) by auto
    show ?thesis
      unfolding loop_inv_def c a st
    proof (intro conjI)
      show "distinct rest" by (rule d(1))
      show "set rest \<inter> set (completed_quests s @ [r]) = {}" using d(2,4) by auto
      show "distinct (map (quest_store (bump s r a)) (completed_quests s @ [r]))"
        using dm new by simp
      show "distinct (filter (\<lambda>q. quest_id (quest_store (bump s r a) q) \<noteq>
                       quest_id (quest_store (bump s r a) r)) (active_quests s))"
        using d(6) by simp
      show "set (filter (\<lambda>q. quest_id (quest_store (bump s r a) q) \<noteq>
                       quest_id (quest_store (bump s r a) r)) (active_quests s))
              \<inter> set (completed_quests s @ [r]) = {}"
        using sub r_out by auto
    qed
  qed
qed

lemma loop_inv_wf: "loop_inv s rs \<Longrightarrow> quests_wf (update_quest_progress_loop s rs ty a tp)"
proof (induction rs arbitrary: s)
  case Nil
  then show ?case by (simp add: loop_inv_def quests_wf_def)
next
  case (Cons r rs)
  from Cons.IH [OF loop_inv_step [OF Cons.prems]] show ?case by simp
qed

lemma loop_completed_grows:
  "set (completed_quests s) \<subseteq> set (completed_quests (update_quest_progress_loop s rs ty a tp))"
proof (induction rs arbitrary: s)
  case Nil
  show ?case by simp
next
  case (Cons r rs)
  have "set (completed_quests s) \<subseteq> set (completed_quests (quest_step s r ty a tp))"
    using quest_step_lists [of s r ty a tp] by auto
  with Cons.IH [of "quest_step s r ty a tp"] show ?case by auto
qed

lemma loop_active_shrinks:
  "set (active_quests (update_quest_progress_loop s rs ty a tp)) \<subseteq> set (active_quests s)"
proof (induction rs arbitrary: s)
  case Nil
  show ?case by simp
next
  case (Cons r rs)
  have "set (active_quests (quest_step s r ty a tp)) \<subseteq> set (active_quests s)"
    using quest_step_lists [of s r ty a tp] by auto
  with Cons.IH [of "quest_step s r ty a tp"] show ?case by auto
qed

lemma loop_xp:
  "length (completed_quests s) \<le> length (completed_quests (update_quest_progress_loop s rs ty a tp)) \<and>
   (length (completed_quests (update_quest_progress_loop s rs ty a tp)) = length (completed_quests s)
      \<longrightarrow> xp (update_quest_progress_loop s rs ty a tp) = xp s)"
proof (induction rs arbitrary: s)
  case Nil
  show ?case by simp
next
  case (Cons r rs)
  let ?s1 = "quest_step s r ty a tp"
  have step: "length (completed_quests s) \<le> length (completed_quests ?s1) \<and>
     (length (completed_quests ?s1) = length (completed_quests s) \<longrightarrow> xp ?s1 = xp s)"
    using quest_step_lists [of s r ty a tp] by auto
  have ih: "length (completed_quests ?s1)
       \<le> length (completed_quests (update_quest_progress_loop ?s1 rs ty a tp)) \<and>
     (length (completed_quests (update_quest_progress_loop ?s1 rs ty a tp)) =
        length (completed_quests ?s1)
      \<longrightarrow> xp (update_quest_progress_loop ?s1 rs ty a tp) = xp ?s1)"
    by (rule Cons.IH)
  from step ih show ?case by auto
qed

lemma step_reached_value:
  assumes "quest_matches ty tp (quest_store s r)"
    and "target (quest_store s r) \<le> progress (quest_store s r) + a"
  shows "\<exists>c\<in>set (completed_quests (quest_step s r ty a tp)).
           quest_store (quest_step s r ty a tp) c = quest_store (quest_step s r ty a tp) r"
proof -
  have st: "quest_store (quest_step s r ty a tp) = quest_store (bump s r a)"
    using assms(1) by (auto simp: quest_store_quest_step quest_store_bump)
  from quest_step_lists [of s r ty a tp] show ?thesis
  proof (elim disjE conjE)
    assume c: "completed_quests (quest_step s r ty a tp) = completed_quests s"
      and "quest_matches ty tp (quest_store s r) \<and>
           target (quest_store s r) \<le> progress (quest_store s r) + a
           \<longrightarrow> quest_in_completed (bump s r a) r"
    with assms have "quest_in_completed (bump s r a) r" by simp
    then show ?thesis unfolding st c by (auto simp: in_completed_iff)
  next
    assume "completed_quests (quest_step s r ty a tp) = completed_quests s @ [r]"
    then show ?thesis by simp
  qed
qed

lemma loop_reached_value:
  "loop_inv s rs \<Longrightarrow> r \<in> set rs \<Longrightarrow> quest_matches ty tp (quest_store s r) \<Longrightarrow>
   target (quest_store s r) \<le> progress (quest_store s r) + a \<Longrightarrow>
   \<exists>c\<in>set (completed_quests (update_quest_progress_loop s rs ty a tp)).
      quest_store (update_quest_progress_loop s rs ty a tp) c =
      quest_store (update_quest_progress_loop s rs ty a tp) r"
proof (induction rs arbitrary: s)
  case Nil
  then show ?case by simp
next
  case (Cons x rs)
  let ?s1 = "quest_step s x ty a tp"
  have inv1: "loop_inv ?s1 rs" by (rule loop_inv_step [OF Cons.prems(1)])
  show ?case
  proof (cases "x = r")
    case True
    from step_reached_value [OF Cons.prems(3,4)] True
    obtain c where c: "c \<in> set (completed_quests ?s1)" "quest_store ?s1 c = quest_store ?s1 r"
      by blast
    have "c \<notin> set rs" using inv1 c(1) by (auto simp: loop_inv_def)
    moreover have "r \<notin> set rs" using Cons.prems(1) True by (simp add: loop_inv_def)
    ultimately have "quest_store (update_quest_progress_loop ?s1 rs ty a tp) c =
                     quest_store (update_quest_progress_loop ?s1 rs ty a tp) r"
      using c(2) by (simp add: quest_store_loop_other)
    moreover have "c \<in> set (completed_quests (update_quest_progress_loop ?s1 rs ty a tp))"
      using c(1) loop_completed_grows by blast
    ultimately show ?thesis by auto
  next
    case False
    with Cons.prems(2) have r: "r \<in> set rs" by simp
    have same: "quest_store ?s1 r = quest_store s r"
      using False by (simp add: quest_store_quest_step_other)
    from Cons.IH [OF inv1 r] Cons.prems(3,4) show ?thesis by (simp add: same)
  qed
qed

lemma loop_moved_out:
  "loop_inv s rs \<Longrightarrow> r \<in> set rs \<Longrightarrow> quest_matches ty tp (quest_store s r) \<Longrightarrow>
   target (quest_store s r) \<le> progress (quest_store s r) + a \<Longrightarrow>
   \<forall>c\<in>set (completed_quests (update_quest_progress_loop s rs ty a tp)). c \<noteq> r \<longrightarrow>
      quest_store (update_quest_progress_loop s rs ty a tp) c \<noteq>
      quest_store (update_quest_progress_loop s rs ty a tp) r \<Longrightarrow>
   r \<in> set (completed_quests (update_quest_progress_loop s rs ty a tp)) \<and>
   r \<notin> set (active_quests (update_quest_progress_loop s rs ty a tp))"
proof (induction rs arbitrary: s)
  case Nil
  then show ?case by simp
next
  case (Cons x rs)
  let ?s1 = "quest_step s x ty a tp"
  let ?s' = "update_quest_progress_loop ?s1 rs ty a tp"
  have inv1: "loop_inv ?s1 rs" by (rule loop_inv_step [OF Cons.prems(1)])
  have uniq: "\<forall>c\<in>set (completed_quests ?s'). c \<noteq> r \<longrightarrow> quest_store ?s' c \<noteq> quest_store ?s' r"
    using Cons.prems(5) by simp
  show ?case
  proof (cases "x = r")
    case True
    have rs: "r \<notin> set rs" "r \<notin> set (completed_quests s)"
      using Cons.prems(1) True by (auto simp: loop_inv_def)
    have st: "quest_store ?s1 = quest_store (bump s r a)"
      using Cons.prems(3) True by (auto simp: quest_store_quest_step quest_store_bump)
    have "\<not> quest_in_completed (bump s r a) r"
    proof
      assume "quest_in_completed (bump s r a) r"
      then obtain c where c: "c \<in> set (completed_quests s)"
        "quest_store (bump s r a) c = quest_store (bump s r a) r" "c \<noteq> r"
        using rs(2) by (auto simp: in_completed_iff)
      have "c \<notin> set rs" using Cons.prems(1) c(1) by (auto simp: loop_inv_def)
      then have "quest_store ?s' c = quest_store ?s' r"
        using rs(1) c(2) by (simp add: quest_store_loop_other st)
      moreover have "c \<in> set (completed_quests ?s')"
        using c(1) quest_step_lists [of s x ty a tp] loop_completed_grows [of ?s1 rs ty a tp]
        by auto
      ultimately show False using uniq c(3) by blast
    qed
    with quest_step_lists [of s r ty a tp] Cons.prems(3,4)
    have "r \<in> set (completed_quests ?s1)" "r \<notin> set (active_quests ?s1)"
      using True by auto
    then show ?thesis
      using loop_completed_grows [of ?s1 rs ty a tp] loop_active_shrinks [of ?s1 rs ty a tp]
      by auto
  next
    case False
    with Cons.prems(2) have r: "r \<in> set rs" by simp
    have same: "quest_store ?s1 r = quest_store s r"
      using False by (simp add: quest_store_quest_step_other)
    have "r \<in> set (completed_quests ?s') \<and> r \<notin> set (active_quests ?s')"
      by (rule Cons.IH [OF inv1 r]) (use Cons.prems(3,4) same uniq in simp_all)
    then show ?thesis by simp
  qed
qed

lemma distinct_map_count:
  "distinct (map f xs) \<Longrightarrow> c \<in> set xs \<Longrightarrow> length (filter (\<lambda>x. f x = f c) xs) = 1"
proof (induction xs)
  case Nil
  then show ?case by simp
next
  case (Cons x xs)
  show ?case
  proof (cases "x = c")
    case True
    with Cons.prems have "f c \<notin> f ` set xs" by simp
    then have "\<forall>y\<in>set xs. f y \<noteq> f c" by (metis imageI)
    then have "filter (\<lambda>x. f x = f c) xs = []" by (simp add: filter_empty_conv)
    then show ?thesis using True by simp
  next
    case False
    with Cons.prems have "c \<in> set xs" by simp
    then have "f c \<in> f ` set xs" by simp
    with Cons.prems have "f x \<noteq> f c" by auto
    note \<open>c \<in> set xs\<close> this
    with Cons.IH Cons.prems show ?thesis by simp
  qed
qed

text \<open>
  Claim C6, as stated, fails.  In \<open>sample_restart\<close> one more quiz answer brings the active
  quiz quest to its target, but the record it then equals is already in the completed
  list, so the guard of \<open>complete_quest\<close> skips everything, the removal from the active
  list included: the quest has reached its target and is still active.
\<close>

theorem quest_stays_active_counterexample:
  "target (quest_store (update_quest_progress sample_restart ''quiz'' 1 None) 0)
     \<le> progress (quest_store (update_quest_progress sample_restart ''quiz'' 1 None) 0) \<and>
   0 \<in> set (active_quests (update_quest_progress sample_restart ''quiz'' 1 None)) \<and>
   0 \<notin> set (completed_quests (update_quest_progress sample_restart ''quiz'' 1 None))"
  by (simp add: update_quest_progress_def quest_step_cases quest_matches_def truthy_def bump_def
      complete_quest_def quest_in_completed_def sample_restart_def daily_quiz_def init_app_def)

text \<open>
  What a call of \<open>update_quest_progress\<close> does to the quest objects and the two lists,
  from well-formed lists.
\<close>

lemma quest_completion_lists:
  fixes s :: app and ty :: string and a :: int and tp :: "int option"
  defines "s' \<equiv> update_quest_progress s ty a tp"
  assumes wf: "quests_wf s"
  shows "quests_wf s' \<and>
     (\<forall>c\<in>set (completed_quests s). c \<in> set (completed_quests s') \<and> quest_store s' c = quest_store s c) \<and>
     (length (completed_quests s') = length (completed_quests s) \<longrightarrow> xp s' = xp s) \<and>
     (\<forall>r\<in>set (active_quests s). quest_matches ty tp (quest_store s r) \<longrightarrow>
        progress (quest_store s' r) = min (target (quest_store s r)) (progress (quest_store s r) + a) \<and>
        progress (quest_store s' r) \<le> target (quest_store s' r) \<and>
        (target (quest_store s' r) \<le> progress (quest_store s' r) \<longrightarrow>
           length (filter (\<lambda>c. quest_store s' c = quest_store s' r) (completed_quests s')) = 1 \<and>
           ((\<forall>c\<in>set (completed_quests s'). c \<noteq> r \<longrightarrow> quest_store s' c \<noteq> quest_store s' r) \<longrightarrow>
              r \<in> set (completed_quests s') \<and> r \<notin> set (active_quests s')))) \<and>
     (quest_in_completed s q \<longrightarrow> complete_quest s q = s) \<and>
     (\<not> quest_in_completed s q \<longrightarrow>
        completed_quests (complete_quest s q) = completed_quests s @ [q] \<and>
        q \<notin> set (active_quests (complete_quest s q)) \<and>
        xp s + xp_reward (quest_store s q) \<le> xp (complete_quest s q))"
proof -
  let ?l = "update_quest_progress_loop s (active_quests s) ty a tp"
  have f: "quest_store s' = quest_store ?l" "completed_quests s' = completed_quests ?l"
    "active_quests s' = active_quests ?l" "xp s' = xp ?l"
    by (simp_all add: s'_def update_quest_progress_def)
  have inv: "loop_inv s (active_quests s)"
    using wf by (auto simp: quests_wf_def loop_inv_def)
  have wf': "quests_wf ?l" by (rule loop_inv_wf [OF inv])
  have 1: "quests_wf s'" using wf' by (simp add: quests_wf_def f)
  have 2: "\<forall>c\<in>set (completed_quests s). c \<in> set (completed_quests s') \<and> quest_store s' c = quest_store s c"
  proof
    fix c assume c: "c \<in> set (completed_quests s)"
    then have "c \<notin> set (active_quests s)" using wf by (auto simp: quests_wf_def)
    then have "quest_store ?l c = quest_store s c" by (rule quest_store_loop_other)
    moreover have "c \<in> set (completed_quests ?l)" using c loop_completed_grows by blast
    ultimately show "c \<in> set (completed_quests s') \<and> quest_store s' c = quest_store s c"
      by (simp add: f)
  qed
  have 3: "length (completed_quests s') = length (completed_quests s) \<longrightarrow> xp s' = xp s"
    using loop_xp [of s "active_quests s" ty a tp] by (simp add: f)
  have 4: "\<forall>r\<in>set (active_quests s). quest_matches ty tp (quest_store s r) \<longrightarrow>
        progress (quest_store s' r) = min (target (quest_store s r)) (progress (quest_store s r) + a) \<and>
        progress (quest_store s' r) \<le> target (quest_store s' r) \<and>
        (target (quest_store s' r) \<le> progress (quest_store s' r) \<longrightarrow>
           length (filter (\<lambda>c. quest_store s' c = quest_store s' r) (completed_quests s')) = 1 \<and>
           ((\<forall>c\<in>set (completed_quests s'). c \<noteq> r \<longrightarrow> quest_store s' c \<noteq> quest_store s' r) \<longrightarrow>
              r \<in> set (completed_quests s') \<and> r \<notin> set (active_quests s')))"
  proof (intro ballI impI)
    fix r assume r: "r \<in> set (active_quests s)" and m: "quest_matches ty tp (quest_store s r)"
    have d: "distinct (active_quests s)" using wf by (simp add: quests_wf_def)
    have v: "quest_store s' r = (quest_store s r)\<lparr>progress :=
               min (target (quest_store s r)) (progress (quest_store s r) + a)\<rparr>"
      using loop_progress [OF d r m] by (simp add: f)
    have p: "progress (quest_store s' r) = min (target (quest_store s r)) (progress (quest_store s r) + a)"
      "target (quest_store s' r) = target (quest_store s r)"
      by (simp_all add: v)
    have reach: "target (quest_store s' r) \<le> progress (quest_store s' r) \<longrightarrow>
           length (filter (\<lambda>c. quest_store s' c = quest_store s' r) (completed_quests s')) = 1 \<and>
           ((\<forall>c\<in>set (completed_quests s'). c \<noteq> r \<longrightarrow> quest_store s' c \<noteq> quest_store s' r) \<longrightarrow>
              r \<in> set (completed_quests s') \<and> r \<notin> set (active_quests s'))"
    proof (intro impI conjI)
      assume "target (quest_store s' r) \<le> progress (quest_store s' r)"
      then have t: "target (quest_store s r) \<le> progress (quest_store s r) + a"
        by (simp add: p)
      from loop_reached_value [OF inv r m t]
      obtain c where c: "c \<in> set (completed_quests s')" "quest_store s' c = quest_store s' r"
        by (auto simp: f)
      have "distinct (map (quest_store s') (completed_quests s'))"
        using 1 by (simp add: quests_wf_def)
      from distinct_map_count [OF this c(1)]
      show "length (filter (\<lambda>c. quest_store s' c = quest_store s' r) (completed_quests s')) = 1"
        by (simp add: c(2))
      assume u: "\<forall>c\<in>set (completed_quests s'). c \<noteq> r \<longrightarrow> quest_store s' c \<noteq> quest_store s' r"
      have "r \<in> set (completed_quests ?l) \<and> r \<notin> set (active_quests ?l)"
        by (rule loop_moved_out [OF inv r m t]) (use u in \<open>simp add: f\<close>)
      then show "r \<in> set (completed_quests s')" "r \<notin> set (active_quests s')"
        by (simp_all add: f)
    qed
    show "progress (quest_store s' r) = min (target (quest_store s r)) (progress (quest_store s r) + a) \<and>
        progress (quest_store s' r) \<le> target (quest_store s' r) \<and>
        (target (quest_store s' r) \<le> progress (quest_store s' r) \<longrightarrow>
           length (filter (\<lambda>c. quest_store s' c = quest_store s' r) (completed_quests s')) = 1 \<and>
           ((\<forall>c\<in>set (completed_quests s'). c \<noteq> r \<longrightarrow> quest_store s' c \<noteq> quest_store s' r) \<longrightarrow>
              r \<in> set (completed_quests s') \<and> r \<notin> set (active_quests s')))"
      using reach by (simp add: p)
  qed
  have 5: "quest_in_completed s q \<longrightarrow> complete_quest s q = s"
    by (simp add: complete_quest_done)
  have 6: "\<not> quest_in_completed s q \<longrightarrow>
        completed_quests (complete_quest s q) = completed_quests s @ [q] \<and>
        q \<notin> set (active_quests (complete_quest s q)) \<and>
        xp s + xp_reward (quest_store s q) \<le> xp (complete_quest s q)"
    using complete_quest_new(2,3,4) [of s q] by simp
  from 1 2 3 4 5 6 show ?thesis by blast
qed

text \<open>The xp account: rewards add to the xp outside the bonuses, nothing else does.\<close>

lemma base_xp_simps [simp]:
  "base_xp (save_data s) = base_xp s"
  "base_xp (s\<lparr>hard_mode := b\<rparr>) = base_xp s"
  "base_xp (s\<lparr>exam_simulator := b\<rparr>) = base_xp s"
  "base_xp (s\<lparr>bonus_visualizations := b\<rparr>) = base_xp s"
  "base_xp (s\<lparr>case_studies := b\<rparr>) = base_xp s"
  "base_xp (s\<lparr>completed_quests := cs\<rparr>) = base_xp s"
  "base_xp (s\<lparr>active_quests := qs\<rparr>) = base_xp s"
  "base_xp (s\<lparr>quest_store := st\<rparr>) = base_xp s"
  by (simp_all add: base_xp_def)

lemma base_xp_add_xp_unlock:
  "base_xp (add_xp s amount) = base_xp s + amount"
  "base_xp (unlock_achievement t name) = base_xp t"
proof (induction s amount and t name rule: add_xp_unlock_achievement.induct)
  case (1 s amount)
  let ?s2 = "s\<lparr>xp := xp s + amount, level := 1 + (xp s + amount) div 100\<rparr>"
  have b2: "base_xp ?s2 = base_xp s + amount" by (simp add: base_xp_def)
  show ?case
  proof (cases "1 + (xp s + amount) div 100 > level s")
    case True
    from 1 [OF refl refl refl] True
    have "base_xp (unlock_achievement ?s2 (''Level '' @ py_str (level ?s2) @ '' Reached!''))
            = base_xp ?s2"
      by simp
    then show ?thesis using True b2
      by (simp add: add_xp.simps [of s amount])
  next
    case False
    then show ?thesis using b2 by (simp add: add_xp.simps [of s amount])
  qed
next
  case (2 t name)
  show ?case
  proof (cases "name \<in> set (achievements t)")
    case True
    then show ?thesis by (simp add: unlock_achievement.simps [of t name])
  next
    case False
    have "base_xp (t\<lparr>achievements := achievements t @ [name]\<rparr>) = base_xp t - 50"
      by (simp add: base_xp_def)
    with 2 [OF False] False show ?thesis
      by (simp add: unlock_achievement.simps [of t name])
  qed
qed

lemma base_xp_unlock_features: "base_xp (unlock_features s n) = base_xp s"
  by (simp add: unlock_features_def Let_def base_xp_add_xp_unlock(2))

lemma base_xp_complete_quest:
  "base_xp (complete_quest s r) =
     (if quest_in_completed s r then base_xp s else base_xp s + xp_reward (quest_store s r))"
  by (simp add: complete_quest_def Let_def base_xp_unlock_features base_xp_add_xp_unlock(1))

lemma base_xp_bump [simp]: "base_xp (bump s r a) = base_xp s"
  by (simp add: bump_def)

lemma xp_reward_quest_step:
  "xp_reward (quest_store (quest_step s r ty a tp) c) = xp_reward (quest_store s c)"
  by (simp add: quest_store_quest_step)

lemma xp_reward_loop:
  "xp_reward (quest_store (update_quest_progress_loop s rs ty a tp) c) = xp_reward (quest_store s c)"
  by (induction rs arbitrary: s) (simp_all add: xp_reward_quest_step)

lemma quest_step_base:
  "(completed_quests (quest_step s r ty a tp) = completed_quests s \<and>
    base_xp (quest_step s r ty a tp) = base_xp s) \<or>
   (completed_quests (quest_step s r ty a tp) = completed_quests s @ [r] \<and>
    base_xp (quest_step s r ty a tp) = base_xp s + xp_reward (quest_store s r))"
proof (cases "quest_matches ty tp (quest_store s r) \<and>
              target (quest_store s r) \<le> progress (quest_store s r) + a")
  case False
  then show ?thesis by (auto simp: quest_step_cases)
next
  case True
  then have st: "quest_step s r ty a tp = complete_quest (bump s r a) r"
    by (simp add: quest_step_cases)
  have rw: "xp_reward (quest_store (bump s r a) r) = xp_reward (quest_store s r)"
    by (simp add: quest_store_bump)
  show ?thesis
  proof (cases "quest_in_completed (bump s r a) r")
    case True
    then show ?thesis by (simp add: st complete_quest_done)
  next
    case False
    then show ?thesis
      by (simp add: st complete_quest_new(2) base_xp_complete_quest rw)
  qed
qed

lemma loop_base:
  "\<exists>new. completed_quests (update_quest_progress_loop s rs ty a tp) = completed_quests s @ new \<and>
     base_xp (update_quest_progress_loop s rs ty a tp) =
       base_xp s + sum_list (map (\<lambda>c. xp_reward (quest_store s c)) new)"
proof (induction rs arbitrary: s)
  case Nil
  show ?case by simp
next
  case (Cons r rs)
  let ?s1 = "quest_step s r ty a tp"
  from Cons.IH [of ?s1] obtain new where
    n: "completed_quests (update_quest_progress_loop ?s1 rs ty a tp) = completed_quests ?s1 @ new"
       "base_xp (update_quest_progress_loop ?s1 rs ty a tp) =
          base_xp ?s1 + sum_list (map (\<lambda>c. xp_reward (quest_store ?s1 c)) new)"
    by blast
  have rw: "map (\<lambda>c. xp_reward (quest_store ?s1 c)) new = map (\<lambda>c. xp_reward (quest_store s c)) new"
    by (simp add: xp_reward_quest_step)
  from quest_step_base [of s r ty a tp] show ?case
  proof
    assume "completed_quests ?s1 = completed_quests s \<and> base_xp ?s1 = base_xp s"
    then show ?thesis using n rw by auto
  next
    assume "completed_quests ?s1 = completed_quests s @ [r] \<and>
            base_xp ?s1 = base_xp s + xp_reward (quest_store s r)"
    then have "completed_quests (update_quest_progress_loop s (r # rs) ty a tp) =
                 completed_quests s @ (r # new) \<and>
               base_xp (update_quest_progress_loop s (r # rs) ty a tp) =
                 base_xp s + sum_list (map (\<lambda>c. xp_reward (quest_store s c)) (r # new))"
      using n rw by simp
    then show ?thesis by blast
  qed
qed

lemma update_quest_progress_xp:
  "completed_quests (update_quest_progress s ty a tp) =
     completed_quests s @ newly_completed s (update_quest_progress s ty a tp) \<and>
   xp (update_quest_progress s ty a tp) =
     xp s + sum_list (map (\<lambda>c. xp_reward (quest_store s c))
                        (newly_completed s (update_quest_progress s ty a tp)))
          + 50 * (int (length (achievements (update_quest_progress s ty a tp)))
                  - int (length (achievements s)))"
proof -
  from loop_base [of s "active_quests s" ty a tp] obtain new where
    n: "completed_quests (update_quest_progress_loop s (active_quests s) ty a tp)
          = completed_quests s @ new"
       "base_xp (update_quest_progress_loop s (active_quests s) ty a tp) =
          base_xp s + sum_list (map (\<lambda>c. xp_reward (quest_store s c)) new)"
    by blast
  have nc: "newly_completed s (update_quest_progress s ty a tp) = new"
    by (simp add: newly_completed_def update_quest_progress_def n(1))
  have b: "base_xp (update_quest_progress s ty a tp) =
          base_xp s + sum_list (map (\<lambda>c. xp_reward (quest_store s c)) new)"
    using n(2) by (simp add: update_quest_progress_def)
  show ?thesis
    unfolding nc using n(1) b by (simp add: update_quest_progress_def base_xp_def)
qed

lemma xp_complete_quest:
  "xp (complete_quest s q) =
     (if quest_in_completed s q then xp s
      else xp s + xp_reward (quest_store s q)
           + 50 * (int (length (achievements (complete_quest s q))) - int (length (achievements s))))"
proof (cases "quest_in_completed s q")
  case True
  then show ?thesis by (simp add: complete_quest_done)
next
  case False
  with base_xp_complete_quest [of s q]
  have "base_xp (complete_quest s q) = base_xp s + xp_reward (quest_store s q)" by simp
  then show ?thesis using False unfolding base_xp_def by (simp add: algebra_simps)
qed

text \<open>
  Claim C6, amended.  From well-formed quest lists, a call of \<open>update_quest_progress\<close>
  leaves them well-formed (so the completed list never holds two equal records) and keeps
  every completed quest in the completed list with its record unchanged.  The completed
  list grows by the quests the call completed, each once, and the xp after the call is
  the xp before plus the reward of each of these quests, once, plus 50 for every
  achievement the call unlocked; with no new completed quest the xp is unchanged.  The
  progress of every active quest that takes part is set to \<open>min(target, progress + amount)\<close>,
  which is at most the target.  When such a quest has reached its target, its record is
  in the completed list exactly once, and unless another completed entry already equals
  it, the quest is among the newly completed ones (so its reward is in the sum) and no
  longer active.  \<open>complete_quest\<close> does nothing at all for a quest whose record is
  already in the completed list (no xp, no second copy, no removal from the active list);
  otherwise it appends the quest once, removes it from the active list and adds the
  reward, plus 50 for every achievement it unlocks, to the xp.
\<close>

theorem quest_completion_single_fire:
  fixes s :: app and ty :: string and a :: int and tp :: "int option"
  defines "s' \<equiv> update_quest_progress s ty a tp"
  assumes wf: "quests_wf s"
  shows "quests_wf s' \<and>
     (\<forall>c\<in>set (completed_quests s). c \<in> set (completed_quests s') \<and> quest_store s' c = quest_store s c) \<and>
     completed_quests s' = completed_quests s @ newly_completed s s' \<and>
     distinct (newly_completed s s') \<and>
     xp s' = xp s + sum_list (map (\<lambda>c. xp_reward (quest_store s c)) (newly_completed s s'))
             + 50 * (int (length (achievements s')) - int (length (achievements s))) \<and>
     (length (completed_quests s') = length (completed_quests s) \<longrightarrow> xp s' = xp s) \<and>
     (\<forall>r\<in>set (active_quests s). quest_matches ty tp (quest_store s r) \<longrightarrow>
        progress (quest_store s' r) = min (target (quest_store s r)) (progress (quest_store s r) + a) \<and>
        progress (quest_store s' r) \<le> target (quest_store s' r) \<and>
        (target (quest_store s' r) \<le> progress (quest_store s' r) \<longrightarrow>
           length (filter (\<lambda>c. quest_store s' c = quest_store s' r) (completed_quests s')) = 1 \<and>
           ((\<forall>c\<in>set (completed_quests s'). c \<noteq> r \<longrightarrow> quest_store s' c \<noteq> quest_store s' r) \<longrightarrow>
              r \<in> set (newly_completed s s') \<and> r \<in> set (completed_quests s') \<and>
              r \<notin> set (active_quests s')))) \<and>
     (quest_in_completed s q \<longrightarrow> complete_quest s q = s) \<and>
     (\<not> quest_in_completed s q \<longrightarrow>
        completed_quests (complete_quest s q) = completed_quests s @ [q] \<and>
        q \<notin> set (active_quests (complete_quest s q)) \<and>
        xp (complete_quest s q) = xp s + xp_reward (quest_store s q)
           + 50 * (int (length (achievements (complete_quest s q))) - int (length (achievements s))) \<and>
        xp s + xp_reward (quest_store s q) \<le> xp (complete_quest s q))"
proof -
  note L = quest_completion_lists [OF wf, of ty a tp q, folded s'_def]
  from L have 1: "quests_wf s'" by blast
  from L have 2: "\<forall>c\<in>set (completed_quests s). c \<in> set (completed_quests s') \<and>
                     quest_store s' c = quest_store s c" by blast
  from L have 3: "length (completed_quests s') = length (completed_quests s) \<longrightarrow> xp s' = xp s"
    by blast
  from L have 4: "\<forall>r\<in>set (active_quests s). quest_matches ty tp (quest_store s r) \<longrightarrow>
        progress (quest_store s' r) = min (target (quest_store s r)) (progress (quest_store s r) + a) \<and>
        progress (quest_store s' r) \<le> target (quest_store s' r) \<and>
        (target (quest_store s' r) \<le> progress (quest_store s' r) \<longrightarrow>
           length (filter (\<lambda>c. quest_store s' c = quest_store s' r) (completed_quests s')) = 1 \<and>
           ((\<forall>c\<in>set (completed_quests s'). c \<noteq> r \<longrightarrow> quest_store s' c \<noteq> quest_store s' r) \<longrightarrow>
              r \<in> set (completed_quests s') \<and> r \<notin> set (active_quests s')))" by blast
  from L have 5: "quest_in_completed s q \<longrightarrow> complete_quest s q = s" by blast
  from L have 6: "\<not> quest_in_completed s q \<longrightarrow>
        completed_quests (complete_quest s q) = completed_quests s @ [q] \<and>
        q \<notin> set (active_quests (complete_quest s q)) \<and>
        xp s + xp_reward (quest_store s q) \<le> xp (complete_quest s q)" by blast
  note X = update_quest_progress_xp [of s ty a tp, folded s'_def]
  from X have n1: "completed_quests s' = completed_quests s @ newly_completed s s'" by blast
  from X have n3: "xp s' = xp s + sum_list (map (\<lambda>c. xp_reward (quest_store s c)) (newly_completed s s'))
             + 50 * (int (length (achievements s')) - int (length (achievements s)))" by blast
  have "distinct (completed_quests s')"
    using 1 by (simp add: quests_wf_def distinct_map)
  then have n2: "distinct (newly_completed s s')"
    by (simp add: newly_completed_def)
  have n4: "\<forall>r\<in>set (active_quests s). r \<in> set (completed_quests s') \<longrightarrow>
              r \<in> set (newly_completed s s')"
  proof (intro ballI impI)
    fix r assume "r \<in> set (active_quests s)" and c: "r \<in> set (completed_quests s')"
    then have "r \<notin> set (completed_quests s)" using wf by (auto simp: quests_wf_def)
    moreover have "r \<in> set (completed_quests s) \<union> set (newly_completed s s')"
      using c by (subst (asm) n1) simp
    ultimately show "r \<in> set (newly_completed s s')" by simp
  qed
  have q4: "\<forall>r\<in>set (active_quests s). quest_matches ty tp (quest_store s r) \<longrightarrow>
        progress (quest_store s' r) = min (target (quest_store s r)) (progress (quest_store s r) + a) \<and>
        progress (quest_store s' r) \<le> target (quest_store s' r) \<and>
        (target (quest_store s' r) \<le> progress (quest_store s' r) \<longrightarrow>
           length (filter (\<lambda>c. quest_store s' c = quest_store s' r) (completed_quests s')) = 1 \<and>
           ((\<forall>c\<in>set (completed_quests s'). c \<noteq> r \<longrightarrow> quest_store s' c \<noteq> quest_store s' r) \<longrightarrow>
              r \<in> set (newly_completed s s') \<and> r \<in> set (completed_quests s') \<and>
              r \<notin> set (active_quests s')))"
  proof (intro ballI impI)
    fix r assume r: "r \<in> set (active_quests s)" and m: "quest_matches ty tp (quest_store s r)"
    from 4 [rule_format, OF r m] n4 [rule_format, OF r]
    show "progress (quest_store s' r) = min (target (quest_store s r)) (progress (quest_store s r) + a) \<and>
        progress (quest_store s' r) \<le> target (quest_store s' r) \<and>
        (target (quest_store s' r) \<le> progress (quest_store s' r) \<longrightarrow>
           length (filter (\<lambda>c. quest_store s' c = quest_store s' r) (completed_quests s')) = 1 \<and>
           ((\<forall>c\<in>set (completed_quests s'). c \<noteq> r \<longrightarrow> quest_store s' c \<noteq> quest_store s' r) \<longrightarrow>
              r \<in> set (newly_completed s s') \<and> r \<in> set (completed_quests s') \<and>
              r \<notin> set (active_quests s')))"
      by blast
  qed
  have q6: "\<not> quest_in_completed s q \<longrightarrow>
        completed_quests (complete_quest s q) = completed_quests s @ [q] \<and>
        q \<notin> set (active_quests (complete_quest s q)) \<and>
        xp (complete_quest s q) = xp s + xp_reward (quest_store s q)
           + 50 * (int (length (achievements (complete_quest s q))) - int (length (achievements s))) \<and>
        xp s + xp_reward (quest_store s q) \<le> xp (complete_quest s q)"
    using 6 xp_complete_quest [of s q] by simp
  from 1 2 n1 n2 n3 3 q4 5 q6 show ?thesis by blast
qed

text \<open>
  Instances of C6: in \<open>sample_day\<close> a study action for topic 5 completes the study quest
  and grants its 15 xp; in \<open>sample_restart\<close>, after the progress assignment,
  \<open>complete_quest\<close> changes nothing.
\<close>

theorem quest_completion_single_fire_witness:
  "quests_wf sample_day \<and>
   quests_wf (update_quest_progress sample_day ''study'' 1 (Some 5)) \<and>
   1 \<in> set (active_quests sample_day) \<and>
   quest_matches ''study'' (Some 5) (quest_store sample_day 1) \<and>
   progress (quest_store (update_quest_progress sample_day ''study'' 1 (Some 5)) 1) = 1 \<and>
   target (quest_store (update_quest_progress sample_day ''study'' 1 (Some 5)) 1) = 1 \<and>
   completed_quests (update_quest_progress sample_day ''study'' 1 (Some 5)) = [1] \<and>
   newly_completed sample_day (update_quest_progress sample_day ''study'' 1 (Some 5)) = [1] \<and>
   xp_reward (quest_store sample_day 1) = 15 \<and>
   achievements (update_quest_progress sample_day ''study'' 1 (Some 5)) = [] \<and>
   xp (update_quest_progress sample_day ''study'' 1 (Some 5)) = 15 \<and>
   1 \<notin> set (active_quests (update_quest_progress sample_day ''study'' 1 (Some 5))) \<and>
   \<not> quest_in_completed sample_day 1 \<and>
   xp sample_day + 15 \<le> xp (complete_quest sample_day 1) \<and>
   quest_in_completed (bump sample_restart 0 1) 0 \<and>
   complete_quest (bump sample_restart 0 1) 0 = bump sample_restart 0 1"
proof -
  let ?s' = "update_quest_progress sample_day ''study'' 1 (Some 5)"
  have wf: "quests_wf sample_day" by (simp add: quests_wf_def sample_day_def init_app_def)
  have r: "1 \<in> set (active_quests sample_day)" by (simp add: sample_day_def)
  have m: "quest_matches ''study'' (Some 5) (quest_store sample_day 1)"
    by (simp add: quest_matches_def truthy_def sample_day_def topic_study_def)
  have v: "progress (quest_store sample_day 1) = 0" "target (quest_store sample_day 1) = 1"
    "xp_reward (quest_store sample_day 1) = 15" "xp sample_day = 0"
    "completed_quests sample_day = []" "achievements sample_day = []"
    by (simp_all add: sample_day_def topic_study_def init_app_def)
  have n: "\<not> quest_in_completed sample_day 1"
    by (simp add: quest_in_completed_def sample_day_def init_app_def)
  have ev: "completed_quests ?s' = [1]"
    by (simp add: update_quest_progress_def sample_day_def quest_step_cases quest_matches_def
        truthy_def daily_quiz_def topic_study_def init_app_def complete_quest_new(2)
        quest_in_completed_def bump_def)
  have ach: "achievements ?s' = []"
    by (simp add: update_quest_progress_def quest_step_cases quest_matches_def truthy_def bump_def
      complete_quest_def quest_in_completed_def unlock_features_def Let_def add_xp.simps
      sample_day_def daily_quiz_def topic_study_def init_app_def)
  have dst: "distinct (active_quests sample_day)" by (simp add: sample_day_def)
  have t: "quest_store ?s' 1 = (quest_store sample_day 1)\<lparr>progress := 1\<rparr>"
    using loop_progress [OF dst r m, where a = 1] v by (simp add: update_quest_progress_def)
  have d: "quest_in_completed (bump sample_restart 0 1) 0"
    by (simp add: quest_in_completed_def bump_def sample_restart_def daily_quiz_def)
  have wf2: "quests_wf (bump sample_restart 0 1)"
    by (simp add: quests_wf_def bump_def sample_restart_def)
  have nc: "newly_completed sample_day ?s' = [1]"
    by (simp add: newly_completed_def ev v)
  show ?thesis
    using quest_completion_single_fire [OF wf, of "''study''" 1 "Some 5" 1] wf r m v n ev t ach nc
      quest_completion_single_fire [OF wf2, of "''quiz''" 1 None 0] d
    by simp
qed

end
